theory Spec2Isabelle
  imports Main
begin

section \<open>The platform seen from the modules\<close>

text \<open>
  Both modules talk to the PCE through the \<^verbatim>\<open>requests\<close> library and read one CSV file.
  A request is recorded with its URL and the data that \<^verbatim>\<open>json.dumps\<close> serialises:
  \<^item> \<open>GET url\<close>;
  \<^item> \<open>POST url key value\<close> for the body \<^verbatim>\<open>{"key": key, "value": value}\<close> (\<open>None\<close> is
    Python's \<^verbatim>\<open>None\<close>, serialised as \<^verbatim>\<open>null\<close>);
  \<^item> \<open>PUT url hrefs\<close> for the body \<^verbatim>\<open>{"labels": [{"href": h}, ...]}\<close>.
  The credentials are handed to every request unchanged and are left out.
\<close>

text \<open>
  A label identifier as the assignment module holds it: the \<^verbatim>\<open>href\<close> string of a label
  listed by the platform, or the integer that indexing the \<^verbatim>\<open>bytes\<close> body of a create
  response with \<^verbatim>\<open>[0]\<close> yields.
\<close>

datatype ident = Href string | IntV nat

datatype request =
    GET string
  | POST string string "string option"
  | PUT string "ident list"

text \<open>
  What a call of \<^verbatim>\<open>requests.get/post/put\<close> does: it raises, or it returns a response with
  a status code and a body.
\<close>

datatype http = Raises | Response nat string

datatype exn =
    AttributeError | JSONDecodeError | IndexError | UnboundLocalError
  | RequestException | IOError | TypeError

record label_data =
  label_key :: string
  label_value :: string
  label_href :: string

record interface =
  address :: string

record workload_data =
  workload_href :: string
  public_ip :: string
  interfaces :: "interface list"

text \<open>One row of the workload CSV and one row of the label CSV, as \<^verbatim>\<open>csv.DictReader\<close>
  yields them: a column missing from a short row reads as \<^verbatim>\<open>None\<close>, an empty cell as the
  empty string. The \<^verbatim>\<open>ip\<close> column is taken to be there in every row. The objects decoded
  from the platform's answers carry the fields the code reads, as strings.\<close>

record workload_row =
  ip :: string
  role :: "string option"
  app :: "string option"
  env :: "string option"
  loc :: "string option"

record label_row =
  row_type :: "string option"
  row_name :: "string option"

text \<open>
  The world outside the module: the platform answers a request knowing the requests the
  run has sent before it; \<^verbatim>\<open>json.loads\<close> decodes a body or raises (\<open>None\<close>); opening and
  reading a CSV path yields its rows or raises (\<open>None\<close>).
\<close>

record world =
  respond :: "request list \<Rightarrow> request \<Rightarrow> http"
  loads_labels :: "string \<Rightarrow> label_data list option"
  loads_workloads :: "string \<Rightarrow> workload_data list option"
  csv_workloads :: "string \<Rightarrow> workload_row list option"
  csv_labels :: "string \<Rightarrow> label_row list option"

text \<open>The requests a run has sent so far, oldest first.\<close>

record io =
  trace :: "request list"

text \<open>Python truthiness of an optional string parameter, and its value once it is known
  to be a string.\<close>

fun truthy :: "string option \<Rightarrow> bool" where
  "truthy None = False"
| "truthy (Some s) = (s \<noteq> [])"

fun str :: "string option \<Rightarrow> string" where
  "str None = []"
| "str (Some s) = s"

text \<open>The parameters both modules take, and the two URLs built from them. The creation
  module calls the labels URL \<^verbatim>\<open>API\<close>; in the assignment module \<^verbatim>\<open>API\<close> is the URL of
  the managed workloads and \<^verbatim>\<open>labels_API\<close> the labels URL.\<close>

record params =
  pce :: string
  org_href :: string
  check_mode :: bool

definition labels_API :: "'a params_scheme \<Rightarrow> string" where
  "labels_API p = pce p @ ''/api/v2/'' @ org_href p @ ''/labels''"

definition API :: "'a params_scheme \<Rightarrow> string" where
  "API p = pce p @ ''/api/v2/'' @ org_href p @ ''/workloads?managed=true''"

section \<open>The creation module (create_label.py)\<close>

record create_params = params +
  l_name :: "string option"
  l_type :: "string option"
  l_path :: "string option"

record create_state = io +
  success :: "string list"
  error :: "string list"

text \<open>How \<^verbatim>\<open>run_module\<close> ends: one of its \<^verbatim>\<open>exit_json\<close> calls, or \<^verbatim>\<open>fail_json\<close>.
  \<open>Exit_json_result error success\<close>; \<open>Exit_json_invalid t\<close> is
  \<^verbatim>\<open>exit_json(msg="Invalid type value.", failed=t)\<close>.\<close>

datatype create_outcome =
    Exit_json_check
  | Exit_json_result "string list" "string list"
  | Exit_json_invalid string
  | Exit_json_mismatch
  | Fail_json string

text \<open>The body of the loop over the CSV rows (lines 140 to 146).\<close>

definition csv_row :: "world \<Rightarrow> create_params \<Rightarrow> label_row \<Rightarrow> create_state
    \<Rightarrow> (exn \<times> create_state) + create_state" where
  "csv_row w p rows st =
     (case row_type rows of
        None \<Rightarrow> Inl (TypeError, st)
      | Some key \<Rightarrow>
          if key = ''loc'' \<or> key = ''env'' \<or> key = ''role'' \<or> key = ''app'' then
            (let q = POST (labels_API p) key (row_name rows);
                 st1 = st\<lparr>trace := trace st @ [q]\<rparr>
             in case respond w (trace st) q of
                  Raises \<Rightarrow> Inl (RequestException, st1)
                | Response status body \<Rightarrow>
                    (case row_name rows of
                       None \<Rightarrow> Inl (TypeError, st1)
                     | Some val \<Rightarrow> Inr (st1\<lparr>success := success st1 @ [key @ '' : '' @ val]\<rparr>)))
          else Inr (st\<lparr>error := error st @
                 [''Invalid type:'' @ key @ ''. Type should be either env,app,loc,role'']\<rparr>))"

fun csv_rows :: "world \<Rightarrow> create_params \<Rightarrow> label_row list \<Rightarrow> create_state
    \<Rightarrow> (exn \<times> create_state) + create_state" where
  "csv_rows w p [] st = Inr st"
| "csv_rows w p (rows # rest) st =
     (case csv_row w p rows st of
        Inl x \<Rightarrow> Inl x
      | Inr st' \<Rightarrow> csv_rows w p rest st')"

text \<open>The branch for a single record (lines 148 to 153): the success entry is appended
  first, the request is sent after it.\<close>

definition single_record :: "world \<Rightarrow> create_params \<Rightarrow> create_state
    \<Rightarrow> create_outcome \<times> create_state" where
  "single_record w p st =
     (let t = str (l_type p); n = str (l_name p) in
      if t = ''env'' \<or> t = ''loc'' \<or> t = ''app'' \<or> t = ''role'' then
        (let st1 = st\<lparr>success := success st @ [t @ '' : '' @ n]\<rparr>;
             q = POST (labels_API p) t (Some n);
             st2 = st1\<lparr>trace := trace st1 @ [q]\<rparr>
         in case respond w (trace st1) q of
              Raises \<Rightarrow> (Fail_json ''Error!!'', st2)
            | Response status body \<Rightarrow> (Exit_json_result (error st2) (success st2), st2))
      else (Exit_json_invalid t, st))"

text \<open>\<^verbatim>\<open>run_module\<close> of create_label.py. Every exception raised inside the \<^verbatim>\<open>try\<close> ends
  in \<^verbatim>\<open>fail_json(msg="Error!!")\<close>; the state returned beside the outcome is the one the
  run had reached.\<close>

definition run_module_create :: "world \<Rightarrow> create_params \<Rightarrow> create_outcome \<times> create_state" where
  "run_module_create w p =
     (let st = \<lparr>trace = [], success = [], error = []\<rparr> in
      if check_mode p then (Exit_json_check, st)
      else if truthy (l_path p) then
        (case csv_labels w (str (l_path p)) of
           None \<Rightarrow> (Fail_json ''Error!!'', st)
         | Some reader \<Rightarrow>
             (case csv_rows w p reader st of
                Inl (e, st') \<Rightarrow> (Fail_json ''Error!!'', st')
              | Inr st' \<Rightarrow> (Exit_json_result (error st') (success st'), st')))
      else if truthy (l_type p) \<and> truthy (l_name p) then single_record w p st
      else (Exit_json_mismatch, st))"

section \<open>The assignment module (assign_managed_labels.py)\<close>

record assign_params = params +
  workload :: string

text \<open>
  The catalog \<^verbatim>\<open>labels_details\<close> is a dict of dicts: label type, then label value, then
  identifier. The locals \<^verbatim>\<open>role_href\<close>, \<^verbatim>\<open>app_href\<close>, \<^verbatim>\<open>env_href\<close> and \<^verbatim>\<open>loc_href\<close> are
  held in \<open>hrefs\<close> under their label type; \<open>None\<close> is a local not bound yet. They are
  locals of \<^verbatim>\<open>run_module\<close>, so a value bound while one row is processed is still there
  for the next row.
\<close>

type_synonym labels = "string \<Rightarrow> string \<rightharpoonup> ident"

record assign_state = io +
  labels_details :: labels
  hrefs :: "string \<rightharpoonup> ident"
  check :: nat
  assigned :: "string list"
  not_assigned :: "string list"

datatype assign_outcome =
    Exit_check
  | Exit_assigned "string list" "string list"
  | Raised exn

text \<open>What the name \<^verbatim>\<open>response\<close> is bound to in \<^verbatim>\<open>display_labels\<close>: a response of the
  \<^verbatim>\<open>requests\<close> library, or the coroutine object that calling the \<^verbatim>\<open>async def\<close> function
  \<^verbatim>\<open>async_api\<close> returns. The call runs nothing of the function's body, and a coroutine
  object has no attribute \<^verbatim>\<open>content\<close>.\<close>

datatype response_obj = HttpResponse nat string | Coroutine string

definition async_api :: "string \<Rightarrow> response_obj" where
  "async_api api = Coroutine api"

fun content :: "response_obj \<Rightarrow> exn + string" where
  "content (HttpResponse status body) = Inr body"
| "content (Coroutine api) = Inl AttributeError"

text \<open>The body of the loop over the listed labels (lines 126 to 133).\<close>

definition store_label :: "labels \<Rightarrow> label_data \<Rightarrow> labels" where
  "store_label labels d =
     (let l1 = (if label_key d = ''role''
                then labels(''role'' := (labels ''role'')(label_value d \<mapsto> Href (label_href d)))
                else labels);
          l2 = (if label_key d = ''app''
                then l1(''app'' := (l1 ''app'')(label_value d \<mapsto> Href (label_href d)))
                else l1);
          l3 = (if label_key d = ''env''
                then l2(''env'' := (l2 ''env'')(label_value d \<mapsto> Href (label_href d)))
                else l2)
      in (if label_key d = ''loc''
          then l3(''loc'' := (l3 ''loc'')(label_value d \<mapsto> Href (label_href d)))
          else l3))"

definition display_labels :: "world \<Rightarrow> 'a params_scheme \<Rightarrow> assign_state
    \<Rightarrow> (exn \<times> assign_state) + (labels \<times> assign_state)" where
  "display_labels w p st =
     (let q = GET (labels_API p);
          st1 = st\<lparr>trace := trace st @ [q]\<rparr>
      in case respond w (trace st) q of
           Raises \<Rightarrow> Inl (RequestException, st1)
         | Response status body \<Rightarrow>
             (let response = (if length body = 500 then async_api (labels_API p)
                              else HttpResponse status body)
              in case content response of
                   Inl e \<Rightarrow> Inl (e, st1)
                 | Inr c \<Rightarrow>
                     (case loads_labels w c of
                        None \<Rightarrow> Inl (JSONDecodeError, st1)
                      | Some obj \<Rightarrow>
                          Inr (fold (\<lambda>d labels. store_label labels d) obj (\<lambda>t. Map.empty), st1))))"

text \<open>The inner function \<^verbatim>\<open>create_label\<close>: the body of the response to the create
  request.\<close>

definition create_label :: "world \<Rightarrow> 'a params_scheme \<Rightarrow> string \<Rightarrow> string \<Rightarrow> assign_state
    \<Rightarrow> (exn \<times> assign_state) + (string \<times> assign_state)" where
  "create_label w p t n st =
     (let q = POST (labels_API p) t (Some n);
          st1 = st\<lparr>trace := trace st @ [q]\<rparr>
      in case respond w (trace st) q of
           Raises \<Rightarrow> Inl (RequestException, st1)
         | Response status body \<Rightarrow> Inr (body, st1))"

text \<open>One of the four blocks of lines 158 to 185, for the label type \<open>t\<close> and the row's
  field \<open>field\<close>. Indexing the body with \<^verbatim>\<open>[0]\<close> raises on an empty body and yields the
  first byte as an integer otherwise.\<close>

definition resolve :: "world \<Rightarrow> 'a params_scheme \<Rightarrow> string \<Rightarrow> string option \<Rightarrow> assign_state
    \<Rightarrow> (exn \<times> assign_state) + assign_state" where
  "resolve w p t field st =
     (case field of
        None \<Rightarrow> Inr st
      | Some v \<Rightarrow>
          (case labels_details st t v of
             Some h \<Rightarrow> Inr (st\<lparr>hrefs := (hrefs st)(t \<mapsto> h)\<rparr>)
           | None \<Rightarrow>
               (case create_label w p t v st of
                  Inl x \<Rightarrow> Inl x
                | Inr (body, st1) \<Rightarrow>
                    (case body of
                       [] \<Rightarrow> Inl (IndexError, st1)
                     | c # cs \<Rightarrow>
                         (let href = IntV (of_char c) in
                          Inr (st1\<lparr>labels_details :=
                                     (labels_details st1)(t := (labels_details st1 t)(v \<mapsto> href)),
                                   hrefs := (hrefs st1)(t \<mapsto> href)\<rparr>))))))"

text \<open>Python truthiness of an identifier, and one of the four guarded appends of lines
  194 to 201; reading a local that is not bound raises.\<close>

fun truthy_ident :: "ident \<Rightarrow> bool" where
  "truthy_ident (Href s) = (s \<noteq> [])"
| "truthy_ident (IntV n) = (n \<noteq> 0)"

definition append_href :: "(string \<rightharpoonup> ident) \<Rightarrow> string \<Rightarrow> ident list \<Rightarrow> exn + ident list" where
  "append_href hs t label =
     (case hs t of
        None \<Rightarrow> Inl UnboundLocalError
      | Some h \<Rightarrow> Inr (if truthy_ident h then label @ [h] else label))"

definition build_label :: "(string \<rightharpoonup> ident) \<Rightarrow> exn + ident list" where
  "build_label hs =
     (case append_href hs ''role'' [] of
        Inl e \<Rightarrow> Inl e
      | Inr l1 \<Rightarrow>
     (case append_href hs ''app'' l1 of
        Inl e \<Rightarrow> Inl e
      | Inr l2 \<Rightarrow>
     (case append_href hs ''env'' l2 of
        Inl e \<Rightarrow> Inl e
      | Inr l3 \<Rightarrow> append_href hs ''loc'' l3)))"

text \<open>The body of the \<^verbatim>\<open>if\<close> of line 191 (lines 192 to 205).\<close>

definition update_workload :: "world \<Rightarrow> 'a params_scheme \<Rightarrow> string \<Rightarrow> workload_data
    \<Rightarrow> assign_state \<Rightarrow> (exn \<times> assign_state) + assign_state" where
  "update_workload w p target values st =
     (let st0 = st\<lparr>check := 1\<rparr> in
      case build_label (hrefs st0) of
        Inl e \<Rightarrow> Inl (e, st0)
      | Inr label \<Rightarrow>
          (let q = PUT (pce p @ ''/api/v2'' @ workload_href values) label;
               st1 = st0\<lparr>trace := trace st0 @ [q]\<rparr>
           in case respond w (trace st0) q of
                Raises \<Rightarrow> Inl (RequestException, st1)
              | Response status body \<Rightarrow> Inr (st1\<lparr>assigned := assigned st1 @ [target]\<rparr>)))"

text \<open>The loop over the interfaces of one workload (line 190) and the loop over the
  fetched workloads (line 189).\<close>

fun for_interfaces :: "world \<Rightarrow> 'a params_scheme \<Rightarrow> string \<Rightarrow> workload_data
    \<Rightarrow> interface list \<Rightarrow> assign_state \<Rightarrow> (exn \<times> assign_state) + assign_state" where
  "for_interfaces w p target values [] st = Inr st"
| "for_interfaces w p target values (data # rest) st =
     (if address data = target \<or> public_ip values = target then
        (case update_workload w p target values st of
           Inl x \<Rightarrow> Inl x
         | Inr st' \<Rightarrow> for_interfaces w p target values rest st')
      else for_interfaces w p target values rest st)"

fun for_workloads :: "world \<Rightarrow> 'a params_scheme \<Rightarrow> string \<Rightarrow> workload_data list
    \<Rightarrow> assign_state \<Rightarrow> (exn \<times> assign_state) + assign_state" where
  "for_workloads w p target [] st = Inr st"
| "for_workloads w p target (values # rest) st =
     (case for_interfaces w p target values (interfaces values) st of
        Inl x \<Rightarrow> Inl x
      | Inr st' \<Rightarrow> for_workloads w p target rest st')"

text \<open>Lines 157 to 185 for one row: the four resolutions, in the order role, app, env,
  loc.\<close>

definition resolve_row :: "world \<Rightarrow> 'a params_scheme \<Rightarrow> workload_row \<Rightarrow> assign_state
    \<Rightarrow> (exn \<times> assign_state) + assign_state" where
  "resolve_row w p rows st =
     (case resolve w p ''role'' (role rows) st of
        Inl x \<Rightarrow> Inl x
      | Inr st1 \<Rightarrow>
     (case resolve w p ''app'' (app rows) st1 of
        Inl x \<Rightarrow> Inl x
      | Inr st2 \<Rightarrow>
     (case resolve w p ''env'' (env rows) st2 of
        Inl x \<Rightarrow> Inl x
      | Inr st3 \<Rightarrow> resolve w p ''loc'' (loc rows) st3)))"

text \<open>Lines 187 to 207 for one row: the matching against the fetched workloads \<open>obj\<close>,
  and the record of a miss.\<close>

definition match_row :: "world \<Rightarrow> 'a params_scheme \<Rightarrow> string \<Rightarrow> workload_data list
    \<Rightarrow> assign_state \<Rightarrow> (exn \<times> assign_state) + assign_state" where
  "match_row w p target obj st =
     (case for_workloads w p target obj (st\<lparr>check := 0\<rparr>) of
        Inl x \<Rightarrow> Inl x
      | Inr st' \<Rightarrow>
          Inr (if check st' = 0 then st'\<lparr>not_assigned := not_assigned st' @ [target]\<rparr>
               else st'))"

text \<open>The body of the loop over the CSV rows (lines 147 to 207): the managed workloads
  are fetched anew for every row.\<close>

definition workload_row_step :: "world \<Rightarrow> 'a params_scheme \<Rightarrow> workload_row \<Rightarrow> assign_state
    \<Rightarrow> (exn \<times> assign_state) + assign_state" where
  "workload_row_step w p rows st =
     (let q = GET (API p);
          st1 = st\<lparr>trace := trace st @ [q]\<rparr>
      in case respond w (trace st) q of
           Raises \<Rightarrow> Inl (RequestException, st1)
         | Response status body \<Rightarrow>
             (case loads_workloads w body of
                None \<Rightarrow> Inl (JSONDecodeError, st1)
              | Some obj \<Rightarrow>
                  (case resolve_row w p rows st1 of
                     Inl x \<Rightarrow> Inl x
                   | Inr st2 \<Rightarrow> match_row w p (ip rows) obj st2)))"

fun workload_rows :: "world \<Rightarrow> 'a params_scheme \<Rightarrow> workload_row list \<Rightarrow> assign_state
    \<Rightarrow> (exn \<times> assign_state) + assign_state" where
  "workload_rows w p [] st = Inr st"
| "workload_rows w p (rows # rest) st =
     (case workload_row_step w p rows st of
        Inl x \<Rightarrow> Inl x
      | Inr st' \<Rightarrow> workload_rows w p rest st')"

text \<open>\<^verbatim>\<open>run_module\<close> of assign_managed_labels.py. Nothing catches an exception here; the
  state returned beside the outcome is the one the run had reached.\<close>

definition run_module_assign :: "world \<Rightarrow> assign_params \<Rightarrow> assign_outcome \<times> assign_state" where
  "run_module_assign w p =
     (let st = \<lparr>trace = [], labels_details = (\<lambda>t. Map.empty), hrefs = Map.empty, check = 0,
                assigned = [], not_assigned = []\<rparr> in
      if check_mode p then (Exit_check, st)
      else
        (case display_labels w p st of
           Inl (e, st1) \<Rightarrow> (Raised e, st1)
         | Inr (labels, st1) \<Rightarrow>
             (case csv_workloads w (workload p) of
                None \<Rightarrow> (Raised IOError, st1)
              | Some reader \<Rightarrow>
                  (case workload_rows w p reader (st1\<lparr>labels_details := labels\<rparr>) of
                     Inl (e, st2) \<Rightarrow> (Raised e, st2)
                   | Inr st2 \<Rightarrow> (Exit_assigned (assigned st2) (not_assigned st2), st2)))))"

section \<open>What a CSV run of the creation module is expected to send and report\<close>

text \<open>Stated from the rows alone: one create request and one success entry for every row
  with a type of the allow-list, one error message for every other row, in row order.\<close>

definition valid_type :: "string \<Rightarrow> bool" where
  "valid_type key = (key = ''loc'' \<or> key = ''env'' \<or> key = ''role'' \<or> key = ''app'')"

definition csv_posts :: "create_params \<Rightarrow> label_row list \<Rightarrow> request list" where
  "csv_posts p rows =
     map (\<lambda>r. POST (labels_API p) (str (row_type r)) (row_name r))
       (filter (\<lambda>r. valid_type (str (row_type r))) rows)"

definition csv_success :: "label_row list \<Rightarrow> string list" where
  "csv_success rows =
     map (\<lambda>r. str (row_type r) @ '' : '' @ str (row_name r))
       (filter (\<lambda>r. valid_type (str (row_type r))) rows)"

definition csv_errors :: "label_row list \<Rightarrow> string list" where
  "csv_errors rows =
     map (\<lambda>r. ''Invalid type:'' @ str (row_type r) @ ''. Type should be either env,app,loc,role'')
       (filter (\<lambda>r. \<not> valid_type (str (row_type r))) rows)"

section \<open>Notions for the properties of the assignment module\<close>

text \<open>The kinds of request; the facts about the create requests of a run that every
  step keeps (\<open>creates_once\<close>: no create request is sent twice; \<open>created_in_catalog\<close>: every
  pair a create request was sent for is in the catalog); and relations between the
  state before and the state after a step that returns.\<close>

fun is_POST :: "request \<Rightarrow> bool" where
  "is_POST (POST u k v) = True"
| "is_POST q = False"

fun is_PUT :: "request \<Rightarrow> bool" where
  "is_PUT (PUT u l) = True"
| "is_PUT q = False"

definition created_in_catalog :: "assign_state \<Rightarrow> bool" where
  "created_in_catalog st =
     (\<forall>u t v. POST u t v \<in> set (trace st) \<longrightarrow> (\<exists>n. v = Some n \<and> labels_details st t n \<noteq> None))"

definition creates_once :: "assign_state \<Rightarrow> bool" where
  "creates_once st = distinct (filter is_POST (trace st))"

definition preserves :: "(assign_state \<Rightarrow> (exn \<times> assign_state) + assign_state) \<Rightarrow> bool" where
  "preserves f =
     (\<forall>st e st'. creates_once st \<and> created_in_catalog st \<longrightarrow>
        (f st = Inl (e, st') \<longrightarrow> creates_once st') \<and>
        (f st = Inr st' \<longrightarrow> creates_once st' \<and> created_in_catalog st'))"

definition relates :: "(assign_state \<Rightarrow> assign_state \<Rightarrow> bool)
    \<Rightarrow> (assign_state \<Rightarrow> (exn \<times> assign_state) + assign_state) \<Rightarrow> bool" where
  "relates R f = (\<forall>st st'. f st = Inr st' \<longrightarrow> R st st')"

definition catalog_kept :: "assign_state \<Rightarrow> assign_state \<Rightarrow> bool" where
  "catalog_kept a b = (\<forall>t v h. labels_details a t v = Some h \<longrightarrow> labels_details b t v = Some h)"

definition misses_kept :: "assign_state \<Rightarrow> assign_state \<Rightarrow> bool" where
  "misses_kept a b = (set (not_assigned a) \<subseteq> set (not_assigned b))"

definition assigned_counts :: "assign_state \<Rightarrow> assign_state \<Rightarrow> bool" where
  "assigned_counts a b =
     (length (assigned a) = length (filter is_PUT (trace a))
      \<longrightarrow> length (assigned b) = length (filter is_PUT (trace b)))"

definition rows_untouched :: "assign_state \<Rightarrow> assign_state \<Rightarrow> bool" where
  "rows_untouched a b =
     (filter is_PUT (trace b) = filter is_PUT (trace a) \<and> assigned b = assigned a \<and>
      not_assigned b = not_assigned a)"

section \<open>Concrete inputs\<close>

definition p_labels :: create_params where
  "p_labels = \<lparr>pce = ''https://pce'', org_href = ''orgs/1'', check_mode = False,
     l_name = None, l_type = None, l_path = Some ''labels.csv''\<rparr>"

definition p_single_ap :: create_params where
  "p_single_ap = \<lparr>pce = ''https://pce'', org_href = ''orgs/1'', check_mode = False,
     l_name = Some ''test_application'', l_type = Some ''ap'', l_path = None\<rparr>"

text \<open>A platform that accepts every request, and a label CSV with one row of an unknown
  type followed by a good row.\<close>

definition world_accepting :: world where
  "world_accepting =
     \<lparr>respond = (\<lambda>h q. Response 201 ''{}''),
      loads_labels = (\<lambda>b. None),
      loads_workloads = (\<lambda>b. None),
      csv_workloads = (\<lambda>f. None),
      csv_labels = (\<lambda>f. Some [\<lparr>row_type = Some ''ap'', row_name = Some ''test''\<rparr>,
                                \<lparr>row_type = Some ''app'', row_name = Some ''new_app3''\<rparr>])\<rparr>"

text \<open>A platform that already holds the label app:new_app3: it lists it and rejects a
  create request; and a platform that cannot be reached. The label CSV has the one row
  app,new_app3.\<close>

definition p_single_app :: create_params where
  "p_single_app = \<lparr>pce = ''https://pce'', org_href = ''orgs/1'', check_mode = False,
     l_name = Some ''new_app3'', l_type = Some ''app'', l_path = None\<rparr>"

definition labels_listing :: string where
  "labels_listing = ''[{\"key\": \"app\", \"value\": \"new_app3\", \"href\": \"/orgs/1/labels/7\"}]''"

definition world_existing :: world where
  "world_existing =
     \<lparr>respond = (\<lambda>h q. case q of
                    GET u \<Rightarrow> Response 200 labels_listing
                  | POST u k v \<Rightarrow> Response 406 ''rejected''
                  | PUT u l \<Rightarrow> Response 204 []),
      loads_labels = (\<lambda>b. Some [\<lparr>label_key = ''app'', label_value = ''new_app3'',
                                  label_href = ''/orgs/1/labels/7''\<rparr>]),
      loads_workloads = (\<lambda>b. None),
      csv_workloads = (\<lambda>f. None),
      csv_labels = (\<lambda>f. Some [\<lparr>row_type = Some ''app'', row_name = Some ''new_app3''\<rparr>])\<rparr>"

definition world_down :: world where
  "world_down =
     \<lparr>respond = (\<lambda>h q. Raises),
      loads_labels = (\<lambda>b. None),
      loads_workloads = (\<lambda>b. None),
      csv_workloads = (\<lambda>f. None),
      csv_labels = (\<lambda>f. Some [\<lparr>row_type = Some ''app'', row_name = Some ''new_app3''\<rparr>])\<rparr>"

text \<open>Inputs of the assignment module. The platform lists the four labels of
  \<open>catalog_listing\<close>, answers a create request with the body of a created label, and serves
  the given workloads; the workload CSV holds the given rows.\<close>

definition p_assign :: assign_params where
  "p_assign = \<lparr>pce = ''https://pce'', org_href = ''orgs/1'', check_mode = False,
     workload = ''workload.csv''\<rparr>"

definition catalog_listing :: "label_data list" where
  "catalog_listing =
     [\<lparr>label_key = ''role'', label_value = ''web'', label_href = ''/orgs/1/labels/1''\<rparr>,
      \<lparr>label_key = ''app'', label_value = ''billing'', label_href = ''/orgs/1/labels/2''\<rparr>,
      \<lparr>label_key = ''env'', label_value = ''prod'', label_href = ''/orgs/1/labels/3''\<rparr>,
      \<lparr>label_key = ''loc'', label_value = ''us-east'', label_href = ''/orgs/1/labels/4''\<rparr>]"

definition assign_world :: "string \<Rightarrow> label_data list \<Rightarrow> workload_data list
    \<Rightarrow> workload_row list \<Rightarrow> world" where
  "assign_world labels_body listing wls rows =
     \<lparr>respond = (\<lambda>h q. case q of
                    GET u \<Rightarrow> Response 200 (if u = ''https://pce/api/v2/orgs/1/labels''
                                           then labels_body else ''[workloads]'')
                  | POST u k v \<Rightarrow> Response 201 ''{\"href\": \"/orgs/1/labels/9\"}''
                  | PUT u l \<Rightarrow> Response 200 ''{}''),
      loads_labels = (\<lambda>b. Some listing),
      loads_workloads = (\<lambda>b. Some wls),
      csv_workloads = (\<lambda>f. Some rows),
      csv_labels = (\<lambda>f. None)\<rparr>"

definition example_row :: workload_row where
  "example_row = \<lparr>ip = ''192.168.1.113'', role = Some ''web'', app = Some ''billing'',
     env = Some ''prod'', loc = Some ''us-east''\<rparr>"

definition example_workload :: workload_data where
  "example_workload = \<lparr>workload_href = ''/orgs/1/workloads/a'', public_ip = ''192.168.1.113'',
     interfaces = [\<lparr>address = ''10.0.0.5''\<rparr>]\<rparr>"

definition world_no_interfaces :: world where
  "world_no_interfaces =
     assign_world ''[labels]'' catalog_listing [example_workload\<lparr>interfaces := []\<rparr>] [example_row]"

definition world_empty_role :: world where
  "world_empty_role =
     assign_world ''[labels]'' catalog_listing [example_workload] [example_row\<lparr>role := Some []\<rparr>]"

definition world_same_ip_twice :: world where
  "world_same_ip_twice =
     assign_world ''[labels]'' catalog_listing [example_workload] [example_row, example_row]"

definition world_500 :: world where
  "world_500 =
     assign_world (''['' @ replicate 498 CHR '' '' @ '']'') [] [example_workload] [example_row]"

definition world_new_role_twice :: world where
  "world_new_role_twice =
     assign_world ''[labels]'' catalog_listing [example_workload]
       [example_row\<lparr>role := Some ''db''\<rparr>, example_row\<lparr>ip := ''19.16.1.111'', role := Some ''db''\<rparr>]"

text \<open>A row whose IP no workload carries, with the platform serving it; the state of a
  run once the labels are listed; and that state once the workloads are fetched and the
  four labels of the example row are resolved.\<close>

definition unmatched_row :: workload_row where
  "unmatched_row = example_row\<lparr>ip := ''19.16.1.111''\<rparr>"

definition world_unmatched :: world where
  "world_unmatched = assign_world ''[labels]'' catalog_listing [example_workload] [unmatched_row]"

definition world_matched :: world where
  "world_matched = assign_world ''[labels]'' catalog_listing [example_workload] [example_row]"

definition state_after_listing :: assign_state where
  "state_after_listing =
     \<lparr>trace = [GET ''https://pce/api/v2/orgs/1/labels''],
      labels_details = fold (\<lambda>d labels. store_label labels d) catalog_listing (\<lambda>t. Map.empty),
      hrefs = Map.empty, check = 0, assigned = [], not_assigned = []\<rparr>"

definition state_resolved :: assign_state where
  "state_resolved =
     state_after_listing
       \<lparr>trace := [GET ''https://pce/api/v2/orgs/1/labels'',
                  GET ''https://pce/api/v2/orgs/1/workloads?managed=true''],
        hrefs := [''role'' \<mapsto> Href ''/orgs/1/labels/1'', ''app'' \<mapsto> Href ''/orgs/1/labels/2'',
                  ''env'' \<mapsto> Href ''/orgs/1/labels/3'', ''loc'' \<mapsto> Href ''/orgs/1/labels/4'']\<rparr>"

section \<open>Properties of the creation module\<close>

lemma csv_rows_append:
  "csv_rows w p (pre @ post) st =
     (case csv_rows w p pre st of Inl x \<Rightarrow> Inl x | Inr st' \<Rightarrow> csv_rows w p post st')"
  by (induction pre arbitrary: st) (auto split: sum.splits)

lemma csv_row_invalid:
  assumes "row_type r = Some key"
    and "key \<noteq> ''env''" and "key \<noteq> ''app''" and "key \<noteq> ''loc''" and "key \<noteq> ''role''"
  shows "csv_row w p r st = Inr (st\<lparr>error := error st @
           [''Invalid type:'' @ key @ ''. Type should be either env,app,loc,role'']\<rparr>)"
  using assms by (simp add: csv_row_def)

text \<open>
  C6. In CSV mode, a row whose type is a string other than env, app, loc and role, at
  any place in the file, adds the message
  \<^verbatim>\<open>Invalid type:<type>. Type should be either env,app,loc,role\<close> to the error list and
  changes nothing else (no request is sent for it: the trace stays as it is), and the
  loop goes on with the rows after it.
\<close>

theorem csv_invalid_type_recorded:
  assumes "row_type r = Some key"
    and "key \<noteq> ''env''" and "key \<noteq> ''app''" and "key \<noteq> ''loc''" and "key \<noteq> ''role''"
  shows "csv_rows w p (pre @ r # rest) st =
           (case csv_rows w p pre st of
              Inl x \<Rightarrow> Inl x
            | Inr st' \<Rightarrow>
                csv_rows w p rest (st'\<lparr>error := error st' @
                  [''Invalid type:'' @ key @ ''. Type should be either env,app,loc,role'']\<rparr>))"
  using assms by (simp add: csv_rows_append csv_row_invalid split: sum.splits)

theorem csv_invalid_type_recorded_witness:
  "csv_rows world_accepting p_labels
     ([] @ \<lparr>row_type = Some ''ap'', row_name = Some ''test''\<rparr>
         # [\<lparr>row_type = Some ''app'', row_name = Some ''new_app3''\<rparr>])
     \<lparr>trace = [], success = [], error = []\<rparr>
   = Inr \<lparr>trace = [POST ''https://pce/api/v2/orgs/1/labels'' ''app'' (Some ''new_app3'')],
          success = [''app : new_app3''],
          error = [''Invalid type:ap. Type should be either env,app,loc,role'']\<rparr>"
  using csv_invalid_type_recorded [of "\<lparr>row_type = Some ''ap'', row_name = Some ''test''\<rparr>" "''ap''"
      world_accepting p_labels "[]" "[\<lparr>row_type = Some ''app'', row_name = Some ''new_app3''\<rparr>]"
      "\<lparr>trace = [], success = [], error = []\<rparr>"]
  by (simp add: csv_row_def world_accepting_def p_labels_def labels_API_def)

text \<open>
  C7. In single-record mode (no path, a name and a type given, no check mode), a type
  other than env, loc, app and role ends the run at once with
  \<^verbatim>\<open>exit_json(msg="Invalid type value.", failed=<type>)\<close>, where the type is a non-empty
  string, and no request has been sent.
\<close>

theorem single_invalid_type_fails:
  assumes "\<not> check_mode p" and "\<not> truthy (l_path p)"
    and "l_type p = Some t" and "t \<noteq> []" and "truthy (l_name p)"
    and "t \<noteq> ''env''" and "t \<noteq> ''loc''" and "t \<noteq> ''app''" and "t \<noteq> ''role''"
  shows "run_module_create w p = (Exit_json_invalid t, \<lparr>trace = [], success = [], error = []\<rparr>)"
  using assms by (simp add: run_module_create_def single_record_def)

theorem single_invalid_type_fails_witness:
  "run_module_create world_accepting p_single_ap
     = (Exit_json_invalid ''ap'', \<lparr>trace = [], success = [], error = []\<rparr>)"
  using single_invalid_type_fails [of p_single_ap "''ap''" world_accepting]
  by (simp add: p_single_ap_def)

lemma csv_row_valid:
  assumes "row_type r = Some key" and "row_name r = Some val"
    and "key = ''loc'' \<or> key = ''env'' \<or> key = ''role'' \<or> key = ''app''"
    and "respond w (trace st) (POST (labels_API p) key (Some val)) = Response status body"
  shows "csv_row w p r st =
           Inr (st\<lparr>trace := trace st @ [POST (labels_API p) key (Some val)],
                   success := success st @ [key @ '' : '' @ val]\<rparr>)"
  using assms by (auto simp add: csv_row_def Let_def)

lemma single_record_valid:
  assumes "l_type p = Some key" and "l_name p = Some val"
    and "key = ''loc'' \<or> key = ''env'' \<or> key = ''role'' \<or> key = ''app''"
  shows "single_record w p \<lparr>trace = [], success = [], error = []\<rparr> =
           (case respond w [] (POST (labels_API p) key (Some val)) of
              Raises \<Rightarrow>
                (Fail_json ''Error!!'',
                 \<lparr>trace = [POST (labels_API p) key (Some val)],
                  success = [key @ '' : '' @ val], error = []\<rparr>)
            | Response status body \<Rightarrow>
                (Exit_json_result [] [key @ '' : '' @ val],
                 \<lparr>trace = [POST (labels_API p) key (Some val)],
                  success = [key @ '' : '' @ val], error = []\<rparr>))"
  using assms by (auto simp add: single_record_def Let_def split: http.splits)

lemma csv_rows_determined:
  assumes "\<forall>r\<in>set rows. row_type r \<noteq> None \<and> row_name r \<noteq> None"
    and "\<forall>h q. respond w h q \<noteq> Raises"
  shows "csv_rows w p rows st =
           Inr (st\<lparr>trace := trace st @ csv_posts p rows,
                   success := success st @ csv_success rows,
                   error := error st @ csv_errors rows\<rparr>)"
  using assms(1)
proof (induction rows arbitrary: st)
  case Nil
  show ?case by (simp add: csv_posts_def csv_success_def csv_errors_def)
next
  case (Cons r rows)
  from Cons.prems obtain key val where r: "row_type r = Some key" "row_name r = Some val"
    by auto
  from Cons.prems have rest: "\<forall>r\<in>set rows. row_type r \<noteq> None \<and> row_name r \<noteq> None"
    by simp
  show ?case
  proof (cases "valid_type key")
    case True
    obtain status body where
      "respond w (trace st) (POST (labels_API p) key (Some val)) = Response status body"
      using assms(2) by (metis http.exhaust)
    then have "csv_row w p r st =
        Inr (st\<lparr>trace := trace st @ [POST (labels_API p) key (Some val)],
                success := success st @ [key @ '' : '' @ val]\<rparr>)"
      using r True csv_row_valid by (simp add: valid_type_def)
    then show ?thesis
      using r True Cons.IH [OF rest]
      by (simp add: csv_posts_def csv_success_def csv_errors_def)
  next
    case False
    then have "csv_row w p r st = Inr (st\<lparr>error := error st @
           [''Invalid type:'' @ key @ ''. Type should be either env,app,loc,role'']\<rparr>)"
      using r csv_row_invalid by (simp add: valid_type_def)
    then show ?thesis
      using r False Cons.IH [OF rest]
      by (simp add: csv_posts_def csv_success_def csv_errors_def)
  qed
qed

lemma csv_row_returns:
  assumes "csv_row w p r st = Inr s1"
  shows "\<exists>key. row_type r = Some key \<and>
           (if valid_type key
            then \<exists>val. row_name r = Some val \<and>
                   s1 = st\<lparr>trace := trace st @ [POST (labels_API p) key (Some val)],
                           success := success st @ [key @ '' : '' @ val]\<rparr>
            else s1 = st\<lparr>error := error st @
                   [''Invalid type:'' @ key @ ''. Type should be either env,app,loc,role'']\<rparr>)"
proof (cases "row_type r")
  case None
  with assms show ?thesis by (simp add: csv_row_def)
next
  case (Some key)
  show ?thesis
  proof (cases "valid_type key")
    case False
    with assms Some show ?thesis by (simp add: csv_row_def valid_type_def)
  next
    case True
    show ?thesis
    proof (cases "row_name r")
      case None
      with assms Some True show ?thesis
        by (simp add: csv_row_def valid_type_def Let_def split: http.splits)
    next
      case (Some val)
      with assms \<open>row_type r = Some key\<close> True show ?thesis
        by (simp add: csv_row_def valid_type_def Let_def split: http.splits)
    qed
  qed
qed

lemma csv_rows_returns:
  assumes "csv_rows w p rows st = Inr st'"
  shows "st' = st\<lparr>trace := trace st @ csv_posts p rows,
                  success := success st @ csv_success rows,
                  error := error st @ csv_errors rows\<rparr>"
  using assms
proof (induction rows arbitrary: st)
  case Nil
  then show ?case by (simp add: csv_posts_def csv_success_def csv_errors_def)
next
  case (Cons r rows)
  from Cons.prems obtain s1 where s1: "csv_row w p r st = Inr s1"
    and rest: "csv_rows w p rows s1 = Inr st'"
    by (cases "csv_row w p r st") auto
  from csv_row_returns [OF s1] obtain key where key: "row_type r = Some key"
    and shape: "if valid_type key
            then \<exists>val. row_name r = Some val \<and>
                   s1 = st\<lparr>trace := trace st @ [POST (labels_API p) key (Some val)],
                           success := success st @ [key @ '' : '' @ val]\<rparr>
            else s1 = st\<lparr>error := error st @
                   [''Invalid type:'' @ key @ ''. Type should be either env,app,loc,role'']\<rparr>"
    by blast
  show ?case
  proof (cases "valid_type key")
    case True
    with shape obtain val where "row_name r = Some val"
      "s1 = st\<lparr>trace := trace st @ [POST (labels_API p) key (Some val)],
               success := success st @ [key @ '' : '' @ val]\<rparr>"
      by auto
    then show ?thesis
      using Cons.IH [OF rest] key True
      by (simp add: csv_posts_def csv_success_def csv_errors_def)
  next
    case False
    with shape have "s1 = st\<lparr>error := error st @
        [''Invalid type:'' @ key @ ''. Type should be either env,app,loc,role'']\<rparr>"
      by simp
    then show ?thesis
      using Cons.IH [OF rest] key False
      by (simp add: csv_posts_def csv_success_def csv_errors_def)
  qed
qed

lemma csv_mode_run:
  assumes "\<not> check_mode p" and "truthy (l_path p)"
    and "csv_labels w (str (l_path p)) = Some rows"
  shows "run_module_create w p =
           (case csv_rows w p rows \<lparr>trace = [], success = [], error = []\<rparr> of
              Inl (e, st') \<Rightarrow> (Fail_json ''Error!!'', st')
            | Inr st' \<Rightarrow> (Exit_json_result (error st') (success st'), st'))"
  using assms by (simp add: run_module_create_def)

lemma csv_mode_reported:
  assumes "\<not> check_mode p" and "truthy (l_path p)"
    and "csv_labels w (str (l_path p)) = Some rows"
    and "fst (run_module_create w p) = Exit_json_result err succ"
  shows "succ = csv_success rows \<and> err = csv_errors rows"
proof (cases "csv_rows w p rows \<lparr>trace = [], success = [], error = []\<rparr>")
  case (Inl x)
  then show ?thesis
    using assms(4) csv_mode_run [OF assms(1-3)] by (cases x) simp
next
  case (Inr st')
  from csv_rows_returns [OF Inr] have "success st' = csv_success rows" "error st' = csv_errors rows"
    by simp_all
  then show ?thesis
    using assms(4) csv_mode_run [OF assms(1-3)] Inr by simp
qed

lemma csv_success_member:
  assumes "r \<in> set rows" and "row_type r = Some key" and "valid_type key"
    and "row_name r = Some val"
  shows "key @ '' : '' @ val \<in> set (csv_success rows)"
  using assms by (force simp add: csv_success_def)

text \<open>
  C10. The response to a create request is never looked at. In CSV mode, with rows that all
  have a type and a name and requests that do not raise, the run ends in
  \<^verbatim>\<open>exit_json\<close> whatever status and body the platform answers with, and reports
  \<^verbatim>\<open><type> : <name>\<close> under success for every row with a type of the allow-list; and
  whenever a CSV run ends in \<^verbatim>\<open>exit_json(error, success)\<close>, the entry of every row with a
  type of the allow-list and a name is in the reported success list. In single-record mode
  the run reports the entry under success whatever the answer is; the entry is appended
  before the request is sent, so it is already in the list when the request raises and the
  run ends in \<^verbatim>\<open>fail_json(msg="Error!!")\<close>.
\<close>

theorem create_response_never_inspected:
  assumes "key = ''loc'' \<or> key = ''env'' \<or> key = ''role'' \<or> key = ''app''"
  shows "(\<not> check_mode p \<and> truthy (l_path p) \<and> csv_labels w (str (l_path p)) = Some rows \<and>
          (\<forall>r\<in>set rows. row_type r \<noteq> None \<and> row_name r \<noteq> None) \<and>
          (\<forall>h q. respond w h q \<noteq> Raises)
          \<longrightarrow> fst (run_module_create w p)
                = Exit_json_result (csv_errors rows) (csv_success rows))
       \<and> (\<not> check_mode p \<and> truthy (l_path p) \<and> csv_labels w (str (l_path p)) = Some rows \<and>
          fst (run_module_create w p) = Exit_json_result err succ \<and>
          r \<in> set rows \<and> row_type r = Some key \<and> row_name r = Some val
          \<longrightarrow> succ = csv_success rows \<and> key @ '' : '' @ val \<in> set succ)
       \<and> (\<not> check_mode p \<and> \<not> truthy (l_path p) \<and> l_type p = Some key \<and>
          l_name p = Some val \<and> val \<noteq> []
          \<longrightarrow> run_module_create w p =
                (case respond w [] (POST (labels_API p) key (Some val)) of
                   Raises \<Rightarrow>
                     (Fail_json ''Error!!'',
                      \<lparr>trace = [POST (labels_API p) key (Some val)],
                       success = [key @ '' : '' @ val], error = []\<rparr>)
                 | Response status body \<Rightarrow>
                     (Exit_json_result [] [key @ '' : '' @ val],
                      \<lparr>trace = [POST (labels_API p) key (Some val)],
                       success = [key @ '' : '' @ val], error = []\<rparr>)))"
proof -
  have csv_fwd: "\<not> check_mode p \<and> truthy (l_path p) \<and> csv_labels w (str (l_path p)) = Some rows \<and>
          (\<forall>r\<in>set rows. row_type r \<noteq> None \<and> row_name r \<noteq> None) \<and>
          (\<forall>h q. respond w h q \<noteq> Raises)
          \<longrightarrow> fst (run_module_create w p)
                = Exit_json_result (csv_errors rows) (csv_success rows)"
  proof
    assume a: "\<not> check_mode p \<and> truthy (l_path p) \<and> csv_labels w (str (l_path p)) = Some rows \<and>
          (\<forall>r\<in>set rows. row_type r \<noteq> None \<and> row_name r \<noteq> None) \<and>
          (\<forall>h q. respond w h q \<noteq> Raises)"
    then have "csv_rows w p rows \<lparr>trace = [], success = [], error = []\<rparr> =
        Inr (\<lparr>trace = [], success = [], error = []\<rparr>
              \<lparr>trace := trace \<lparr>trace = [], success = [], error = []\<rparr> @ csv_posts p rows,
               success := success \<lparr>trace = [], success = [], error = []\<rparr> @ csv_success rows,
               error := error \<lparr>trace = [], success = [], error = []\<rparr> @ csv_errors rows\<rparr>)"
      using csv_rows_determined by blast
    then show "fst (run_module_create w p) = Exit_json_result (csv_errors rows) (csv_success rows)"
      using a csv_mode_run [of p w rows] by simp
  qed
  have csv_bwd: "\<not> check_mode p \<and> truthy (l_path p) \<and> csv_labels w (str (l_path p)) = Some rows \<and>
          fst (run_module_create w p) = Exit_json_result err succ \<and>
          r \<in> set rows \<and> row_type r = Some key \<and> row_name r = Some val
          \<longrightarrow> succ = csv_success rows \<and> key @ '' : '' @ val \<in> set succ"
  proof
    assume a: "\<not> check_mode p \<and> truthy (l_path p) \<and> csv_labels w (str (l_path p)) = Some rows \<and>
          fst (run_module_create w p) = Exit_json_result err succ \<and>
          r \<in> set rows \<and> row_type r = Some key \<and> row_name r = Some val"
    then have s: "succ = csv_success rows" using csv_mode_reported by blast
    have "valid_type key" using assms by (simp add: valid_type_def)
    then have "key @ '' : '' @ val \<in> set (csv_success rows)"
      using a csv_success_member by blast
    with s show "succ = csv_success rows \<and> key @ '' : '' @ val \<in> set succ" by simp
  qed
  have single: "\<not> check_mode p \<and> \<not> truthy (l_path p) \<and> l_type p = Some key \<and>
          l_name p = Some val \<and> val \<noteq> []
          \<longrightarrow> run_module_create w p =
                (case respond w [] (POST (labels_API p) key (Some val)) of
                   Raises \<Rightarrow>
                     (Fail_json ''Error!!'',
                      \<lparr>trace = [POST (labels_API p) key (Some val)],
                       success = [key @ '' : '' @ val], error = []\<rparr>)
                 | Response status body \<Rightarrow>
                     (Exit_json_result [] [key @ '' : '' @ val],
                      \<lparr>trace = [POST (labels_API p) key (Some val)],
                       success = [key @ '' : '' @ val], error = []\<rparr>))"
  proof
    assume a: "\<not> check_mode p \<and> \<not> truthy (l_path p) \<and> l_type p = Some key \<and>
          l_name p = Some val \<and> val \<noteq> []"
    have k: "key \<noteq> []" using assms by auto
    have "run_module_create w p = single_record w p \<lparr>trace = [], success = [], error = []\<rparr>"
      using a k by (simp add: run_module_create_def)
    then show "run_module_create w p =
                (case respond w [] (POST (labels_API p) key (Some val)) of
                   Raises \<Rightarrow>
                     (Fail_json ''Error!!'',
                      \<lparr>trace = [POST (labels_API p) key (Some val)],
                       success = [key @ '' : '' @ val], error = []\<rparr>)
                 | Response status body \<Rightarrow>
                     (Exit_json_result [] [key @ '' : '' @ val],
                      \<lparr>trace = [POST (labels_API p) key (Some val)],
                       success = [key @ '' : '' @ val], error = []\<rparr>))"
      using a assms single_record_valid [of p key val w] by simp
  qed
  show ?thesis
    by (intro conjI) (fact csv_fwd, fact csv_bwd, fact single)
qed

theorem create_response_never_inspected_witness:
  "fst (run_module_create world_existing p_labels) = Exit_json_result [] [''app : new_app3'']
   \<and> ''app : new_app3'' \<in> set (csv_success [\<lparr>row_type = Some ''app'', row_name = Some ''new_app3''\<rparr>])
   \<and> run_module_create world_existing p_single_app
     = (Exit_json_result [] [''app : new_app3''],
        \<lparr>trace = [POST ''https://pce/api/v2/orgs/1/labels'' ''app'' (Some ''new_app3'')],
         success = [''app : new_app3''], error = []\<rparr>)
   \<and> run_module_create world_down p_single_app
     = (Fail_json ''Error!!'',
        \<lparr>trace = [POST ''https://pce/api/v2/orgs/1/labels'' ''app'' (Some ''new_app3'')],
         success = [''app : new_app3''], error = []\<rparr>)"
proof -
  let ?rows = "[\<lparr>row_type = Some ''app'', row_name = Some ''new_app3''\<rparr>]"
  note t = create_response_never_inspected [where key = "''app''" and val = "''new_app3''"]
  have run: "fst (run_module_create world_existing p_labels)
               = Exit_json_result (csv_errors ?rows) (csv_success ?rows)"
    using t [where p = p_labels and w = world_existing and rows = ?rows]
    by (simp add: world_existing_def p_labels_def split: request.splits)
  have lists: "csv_errors ?rows = []" "csv_success ?rows = [''app : new_app3'']"
    by (simp_all add: csv_errors_def csv_success_def valid_type_def)
  have mem: "''app : new_app3'' \<in> set (csv_success ?rows)"
    using t [where p = p_labels and w = world_existing and rows = ?rows
        and r = "\<lparr>row_type = Some ''app'', row_name = Some ''new_app3''\<rparr>"
        and err = "[]" and succ = "[''app : new_app3'']"] run lists
    by (simp add: world_existing_def p_labels_def)
  have single: "run_module_create world_existing p_single_app
     = (Exit_json_result [] [''app : new_app3''],
        \<lparr>trace = [POST ''https://pce/api/v2/orgs/1/labels'' ''app'' (Some ''new_app3'')],
         success = [''app : new_app3''], error = []\<rparr>)"
    using t [where p = p_single_app and w = world_existing]
    by (simp add: world_existing_def p_single_app_def labels_API_def)
  have down: "run_module_create world_down p_single_app
     = (Fail_json ''Error!!'',
        \<lparr>trace = [POST ''https://pce/api/v2/orgs/1/labels'' ''app'' (Some ''new_app3'')],
         success = [''app : new_app3''], error = []\<rparr>)"
    using t [where p = p_single_app and w = world_down]
    by (simp add: world_down_def p_single_app_def labels_API_def)
  show ?thesis using run lists mem single down by simp
qed

text \<open>
  C5, as amended. The creation module never queries the existing labels. With check mode
  off, a readable CSV whose rows all have a type and a name, and a platform whose
  requests do not raise, the requests of a run are the create requests of the rows with a
  type of the allow-list, one for each such row in row order, and nothing else; the
  reported lists are fixed by the rows as well. None of it depends on what the platform
  holds or answers, so a second run with the same CSV sends the same create requests
  again.
\<close>

theorem create_run_determined_by_csv:
  assumes "\<not> check_mode p" and "truthy (l_path p)"
    and "csv_labels w (str (l_path p)) = Some rows"
    and "\<forall>r\<in>set rows. row_type r \<noteq> None \<and> row_name r \<noteq> None"
    and "\<forall>h q. respond w h q \<noteq> Raises"
  shows "run_module_create w p =
           (Exit_json_result (csv_errors rows) (csv_success rows),
            \<lparr>trace = csv_posts p rows, success = csv_success rows, error = csv_errors rows\<rparr>)"
  using assms(1-3) csv_rows_determined [OF assms(4,5)]
  by (simp add: run_module_create_def)

text \<open>
  The claim as stated fails: on a platform that lists the label app:new_app3 and rejects
  a second create of it, a run over a CSV with that one row sends no query, sends the
  create request all the same and reports the label under success.
\<close>

theorem create_queries_nothing_counterexample:
  "respond world_existing [] (GET (labels_API p_labels))
     = Response 200 labels_listing
   \<and> loads_labels world_existing labels_listing
     = Some [\<lparr>label_key = ''app'', label_value = ''new_app3'', label_href = ''/orgs/1/labels/7''\<rparr>]
   \<and> run_module_create world_existing p_labels
     = (Exit_json_result [] [''app : new_app3''],
        \<lparr>trace = [POST ''https://pce/api/v2/orgs/1/labels'' ''app'' (Some ''new_app3'')],
         success = [''app : new_app3''], error = []\<rparr>)"
  by (simp add: world_existing_def p_labels_def run_module_create_def csv_row_def labels_API_def)

theorem create_run_determined_by_csv_witness:
  "run_module_create world_accepting p_labels =
     (Exit_json_result [''Invalid type:ap. Type should be either env,app,loc,role'']
        [''app : new_app3''],
      \<lparr>trace = [POST ''https://pce/api/v2/orgs/1/labels'' ''app'' (Some ''new_app3'')],
       success = [''app : new_app3''],
       error = [''Invalid type:ap. Type should be either env,app,loc,role'']\<rparr>)"
  using create_run_determined_by_csv [of p_labels world_accepting
      "[\<lparr>row_type = Some ''ap'', row_name = Some ''test''\<rparr>,
        \<lparr>row_type = Some ''app'', row_name = Some ''new_app3''\<rparr>]"]
  by (simp add: world_accepting_def p_labels_def csv_posts_def csv_success_def csv_errors_def
      valid_type_def labels_API_def)
section \<open>Properties of the assignment module\<close>

lemma preservesI:
  assumes "\<And>st e st'. creates_once st \<Longrightarrow> created_in_catalog st \<Longrightarrow> f st = Inl (e, st')
             \<Longrightarrow> creates_once st'"
    and "\<And>st st'. creates_once st \<Longrightarrow> created_in_catalog st \<Longrightarrow> f st = Inr st'
             \<Longrightarrow> creates_once st' \<and> created_in_catalog st'"
  shows "preserves f"
  unfolding preserves_def using assms by blast

lemma preserves_Inl:
  "preserves f \<Longrightarrow> creates_once st \<Longrightarrow> created_in_catalog st \<Longrightarrow> f st = Inl (e, st')
     \<Longrightarrow> creates_once st'"
  unfolding preserves_def by blast

lemma preserves_Inr:
  "preserves f \<Longrightarrow> creates_once st \<Longrightarrow> created_in_catalog st \<Longrightarrow> f st = Inr st'
     \<Longrightarrow> creates_once st' \<and> created_in_catalog st'"
  unfolding preserves_def by blast

lemma preserves_seq:
  assumes "preserves f" and "preserves g"
  shows "preserves (\<lambda>st. case f st of Inl x \<Rightarrow> Inl x | Inr st' \<Rightarrow> g st')"
proof (rule preservesI)
  fix st e st'
  assume h: "creates_once st" "created_in_catalog st"
    and r: "(case f st of Inl x \<Rightarrow> Inl x | Inr st' \<Rightarrow> g st') = Inl (e, st')"
  show "creates_once st'"
  proof (cases "f st")
    case (Inl x)
    with r have "f st = Inl (e, st')" by simp
    then show ?thesis using preserves_Inl [OF assms(1) h] by blast
  next
    case (Inr s1)
    with r have g: "g s1 = Inl (e, st')" by simp
    from preserves_Inr [OF assms(1) h Inr] show ?thesis
      using preserves_Inl [OF assms(2) _ _ g] by blast
  qed
next
  fix st st'
  assume h: "creates_once st" "created_in_catalog st"
    and r: "(case f st of Inl x \<Rightarrow> Inl x | Inr st' \<Rightarrow> g st') = Inr st'"
  show "creates_once st' \<and> created_in_catalog st'"
  proof (cases "f st")
    case (Inl x)
    with r show ?thesis by simp
  next
    case (Inr s1)
    with r have g: "g s1 = Inr st'" by simp
    from preserves_Inr [OF assms(1) h Inr] show ?thesis
      using preserves_Inr [OF assms(2) _ _ g] by blast
  qed
qed

lemma preserves_skip: "preserves Inr"
  by (rule preservesI) auto

lemma resolve_absent: "resolve w p t None st = Inr st"
  by (simp add: resolve_def)

lemma resolve_hit:
  "labels_details st t v = Some h \<Longrightarrow>
   resolve w p t (Some v) st = Inr (st\<lparr>hrefs := (hrefs st)(t \<mapsto> h)\<rparr>)"
  by (simp add: resolve_def)

lemma resolve_raises:
  "labels_details st t v = None \<Longrightarrow>
   respond w (trace st) (POST (labels_API p) t (Some v)) = Raises \<Longrightarrow>
   resolve w p t (Some v) st =
     Inl (RequestException, st\<lparr>trace := trace st @ [POST (labels_API p) t (Some v)]\<rparr>)"
  by (simp add: resolve_def create_label_def Let_def)

lemma resolve_empty_body:
  "labels_details st t v = None \<Longrightarrow>
   respond w (trace st) (POST (labels_API p) t (Some v)) = Response status [] \<Longrightarrow>
   resolve w p t (Some v) st =
     Inl (IndexError, st\<lparr>trace := trace st @ [POST (labels_API p) t (Some v)]\<rparr>)"
  by (simp add: resolve_def create_label_def Let_def)

lemma resolve_created:
  "labels_details st t v = None \<Longrightarrow>
   respond w (trace st) (POST (labels_API p) t (Some v)) = Response status (c # cs) \<Longrightarrow>
   resolve w p t (Some v) st =
     Inr (st\<lparr>trace := trace st @ [POST (labels_API p) t (Some v)],
             labels_details :=
               (labels_details st)(t := (labels_details st t)(v \<mapsto> IntV (of_char c))),
             hrefs := (hrefs st)(t \<mapsto> IntV (of_char c))\<rparr>)"
  by (simp add: resolve_def create_label_def Let_def)

lemma post_fresh:
  assumes "created_in_catalog st" and "labels_details st t v = None"
  shows "POST u t (Some v) \<notin> set (trace st)"
  using assms unfolding created_in_catalog_def by fastforce

lemma creates_once_post:
  assumes "creates_once st" and "created_in_catalog st" and "labels_details st t v = None"
  shows "creates_once (st\<lparr>trace := trace st @ [POST u t (Some v)]\<rparr>)"
  using assms(1) post_fresh [OF assms(2,3), of u] by (simp add: creates_once_def)

lemma created_in_catalog_post:
  assumes "created_in_catalog st"
  shows "created_in_catalog
           (st\<lparr>trace := trace st @ [POST u t (Some v)],
               labels_details := (labels_details st)(t := (labels_details st t)(v \<mapsto> x)),
               hrefs := hs\<rparr>)"
  unfolding created_in_catalog_def
proof (intro allI impI)
  fix u' t' v'
  assume "POST u' t' v' \<in> set (trace
           (st\<lparr>trace := trace st @ [POST u t (Some v)],
               labels_details := (labels_details st)(t := (labels_details st t)(v \<mapsto> x)),
               hrefs := hs\<rparr>))"
  then consider "POST u' t' v' \<in> set (trace st)" | "t' = t" "v' = Some v"
    by auto
  then show "\<exists>n. v' = Some n \<and>
       labels_details (st\<lparr>trace := trace st @ [POST u t (Some v)],
               labels_details := (labels_details st)(t := (labels_details st t)(v \<mapsto> x)),
               hrefs := hs\<rparr>) t' n \<noteq> None"
  proof cases
    case 1
    with assms obtain n where "v' = Some n" "labels_details st t' n \<noteq> None"
      unfolding created_in_catalog_def by blast
    then show ?thesis by auto
  next
    case 2
    then show ?thesis by simp
  qed
qed

lemma preserves_resolve: "preserves (resolve w p t field)"
proof (cases field)
  case None
  then have "resolve w p t field = Inr" by (intro ext) (simp add: resolve_absent)
  then show ?thesis by (simp add: preserves_skip)
next
  case (Some v)
  show ?thesis
  proof (rule preservesI)
    fix st e st'
    assume h: "creates_once st" "created_in_catalog st"
      and r: "resolve w p t field st = Inl (e, st')"
    show "creates_once st'"
    proof (cases "labels_details st t v")
      case (Some x)
      with r \<open>field = Some v\<close> show ?thesis by (simp add: resolve_hit)
    next
      case None
      show ?thesis
      proof (cases "respond w (trace st) (POST (labels_API p) t (Some v))")
        case Raises
        with r None \<open>field = Some v\<close>
        have "st' = st\<lparr>trace := trace st @ [POST (labels_API p) t (Some v)]\<rparr>"
          by (simp add: resolve_raises)
        then show ?thesis using creates_once_post [OF h None] by simp
      next
        case (Response status body)
        show ?thesis
        proof (cases body)
          case Nil
          with r None Response \<open>field = Some v\<close>
          have "st' = st\<lparr>trace := trace st @ [POST (labels_API p) t (Some v)]\<rparr>"
            by (simp add: resolve_empty_body)
          then show ?thesis using creates_once_post [OF h None] by simp
        next
          case (Cons c cs)
          with r None Response \<open>field = Some v\<close> show ?thesis
            by (simp add: resolve_created)
        qed
      qed
    qed
  next
    fix st st'
    assume h: "creates_once st" "created_in_catalog st"
      and r: "resolve w p t field st = Inr st'"
    show "creates_once st' \<and> created_in_catalog st'"
    proof (cases "labels_details st t v")
      case (Some x)
      with r \<open>field = Some v\<close> have "st' = st\<lparr>hrefs := (hrefs st)(t \<mapsto> x)\<rparr>"
        by (simp add: resolve_hit)
      then show ?thesis using h by (simp add: creates_once_def created_in_catalog_def)
    next
      case None
      show ?thesis
      proof (cases "respond w (trace st) (POST (labels_API p) t (Some v))")
        case Raises
        with r None \<open>field = Some v\<close> show ?thesis by (simp add: resolve_raises)
      next
        case (Response status body)
        show ?thesis
        proof (cases body)
          case Nil
          with r None Response \<open>field = Some v\<close> show ?thesis
            by (simp add: resolve_empty_body)
        next
          case (Cons c cs)
          with r None Response \<open>field = Some v\<close>
          have st': "st' = st\<lparr>trace := trace st @ [POST (labels_API p) t (Some v)],
             labels_details :=
               (labels_details st)(t := (labels_details st t)(v \<mapsto> IntV (of_char c))),
             hrefs := (hrefs st)(t \<mapsto> IntV (of_char c))\<rparr>"
            by (simp add: resolve_created)
          have "creates_once st'"
            using creates_once_post [OF h None, of "labels_API p"] st'
            by (simp add: creates_once_def)
          moreover have "created_in_catalog st'"
            unfolding st' by (rule created_in_catalog_post [OF h(2)])
          ultimately show ?thesis by simp
        qed
      qed
    qed
  qed
qed

lemma update_workload_unbound:
  "build_label (hrefs st) = Inl e \<Longrightarrow>
   update_workload w p target values st = Inl (e, st\<lparr>check := 1\<rparr>)"
  by (simp add: update_workload_def Let_def)

lemma update_workload_raises:
  "build_label (hrefs st) = Inr label \<Longrightarrow>
   respond w (trace st) (PUT (pce p @ ''/api/v2'' @ workload_href values) label) = Raises \<Longrightarrow>
   update_workload w p target values st =
     Inl (RequestException,
          st\<lparr>check := 1,
             trace := trace st @ [PUT (pce p @ ''/api/v2'' @ workload_href values) label]\<rparr>)"
  by (simp add: update_workload_def Let_def)

lemma update_workload_sent:
  "build_label (hrefs st) = Inr label \<Longrightarrow>
   respond w (trace st) (PUT (pce p @ ''/api/v2'' @ workload_href values) label)
     = Response status body \<Longrightarrow>
   update_workload w p target values st =
     Inr (st\<lparr>check := 1,
             trace := trace st @ [PUT (pce p @ ''/api/v2'' @ workload_href values) label],
             assigned := assigned st @ [target]\<rparr>)"
  by (simp add: update_workload_def Let_def)

lemma update_workload_shape:
  "(\<exists>e. update_workload w p target values st = Inl (e, st\<lparr>check := 1\<rparr>))
   \<or> (\<exists>e q. is_PUT q \<and> update_workload w p target values st
                = Inl (e, st\<lparr>check := 1, trace := trace st @ [q]\<rparr>))
   \<or> (\<exists>q. is_PUT q \<and> update_workload w p target values st
                = Inr (st\<lparr>check := 1, trace := trace st @ [q],
                         assigned := assigned st @ [target]\<rparr>))"
proof (cases "build_label (hrefs st)")
  case (Inl e)
  then show ?thesis using update_workload_unbound by blast
next
  case (Inr label)
  show ?thesis
  proof (cases "respond w (trace st) (PUT (pce p @ ''/api/v2'' @ workload_href values) label)")
    case Raises
    from update_workload_raises [OF Inr Raises] show ?thesis
      by (metis is_PUT.simps(1))
  next
    case (Response status body)
    from update_workload_sent [OF Inr Response] show ?thesis
      by (metis is_PUT.simps(1))
  qed
qed

lemma preserves_update_workload: "preserves (update_workload w p target values)"
proof (rule preservesI)
  fix st e st'
  assume h: "creates_once st" "created_in_catalog st"
    and r: "update_workload w p target values st = Inl (e, st')"
  from update_workload_shape [of w p target "values" st] r
  consider "st' = st\<lparr>check := 1\<rparr>"
    | q where "is_PUT q" "st' = st\<lparr>check := 1, trace := trace st @ [q]\<rparr>"
    by auto
  then show "creates_once st'"
  proof cases
    case 1
    then show ?thesis using h by (simp add: creates_once_def)
  next
    case 2
    then show ?thesis using h by (cases q) (simp_all add: creates_once_def)
  qed
next
  fix st st'
  assume h: "creates_once st" "created_in_catalog st"
    and r: "update_workload w p target values st = Inr st'"
  from update_workload_shape [of w p target "values" st] r
  obtain q where q: "is_PUT q"
      "st' = st\<lparr>check := 1, trace := trace st @ [q], assigned := assigned st @ [target]\<rparr>"
    by auto
  then show "creates_once st' \<and> created_in_catalog st'"
    using h by (cases q) (simp_all add: creates_once_def created_in_catalog_def)
qed

lemma preserves_for_interfaces: "preserves (for_interfaces w p target values ifs)"
proof (induction ifs)
  case Nil
  have "for_interfaces w p target values [] = Inr" by (rule ext) simp
  then show ?case by (simp add: preserves_skip)
next
  case (Cons d ifs)
  show ?case
  proof (cases "address d = target \<or> public_ip values = target")
    case True
    then have "for_interfaces w p target values (d # ifs) =
        (\<lambda>st. case update_workload w p target values st of
                Inl x \<Rightarrow> Inl x | Inr st' \<Rightarrow> for_interfaces w p target values ifs st')"
      by (intro ext) simp
    then show ?thesis
      using preserves_seq [OF preserves_update_workload Cons.IH] by simp
  next
    case False
    then have "for_interfaces w p target values (d # ifs) = for_interfaces w p target values ifs"
      by (intro ext) simp
    then show ?thesis using Cons.IH by simp
  qed
qed

lemma preserves_for_workloads: "preserves (for_workloads w p target obj)"
proof (induction obj)
  case Nil
  have "for_workloads w p target [] = Inr" by (rule ext) simp
  then show ?case by (simp add: preserves_skip)
next
  case (Cons v obj)
  have "for_workloads w p target (v # obj) =
      (\<lambda>st. case for_interfaces w p target v (interfaces v) st of
              Inl x \<Rightarrow> Inl x | Inr st' \<Rightarrow> for_workloads w p target obj st')"
    by (intro ext) simp
  then show ?case
    using preserves_seq [OF preserves_for_interfaces Cons.IH] by simp
qed

lemma preserves_match_row: "preserves (match_row w p target obj)"
proof (rule preservesI)
  fix st e st'
  assume h: "creates_once st" "created_in_catalog st"
    and r: "match_row w p target obj st = Inl (e, st')"
  have h0: "creates_once (st\<lparr>check := 0\<rparr>)" "created_in_catalog (st\<lparr>check := 0\<rparr>)"
    using h by (simp_all add: creates_once_def created_in_catalog_def)
  from r have "for_workloads w p target obj (st\<lparr>check := 0\<rparr>) = Inl (e, st')"
    by (simp add: match_row_def split: sum.splits)
  then show "creates_once st'"
    using preserves_Inl [OF preserves_for_workloads h0] by blast
next
  fix st st'
  assume h: "creates_once st" "created_in_catalog st"
    and r: "match_row w p target obj st = Inr st'"
  have h0: "creates_once (st\<lparr>check := 0\<rparr>)" "created_in_catalog (st\<lparr>check := 0\<rparr>)"
    using h by (simp_all add: creates_once_def created_in_catalog_def)
  from r obtain s1 where s1: "for_workloads w p target obj (st\<lparr>check := 0\<rparr>) = Inr s1"
    and st': "st' = (if check s1 = 0 then s1\<lparr>not_assigned := not_assigned s1 @ [target]\<rparr> else s1)"
    by (auto simp add: match_row_def split: sum.splits)
  from preserves_Inr [OF preserves_for_workloads h0 s1] show "creates_once st' \<and> created_in_catalog st'"
    using st' by (simp add: creates_once_def created_in_catalog_def)
qed

lemma preserves_resolve_row: "preserves (resolve_row w p rows)"
proof -
  have "resolve_row w p rows =
      (\<lambda>st. case resolve w p ''role'' (role rows) st of Inl x \<Rightarrow> Inl x | Inr st1 \<Rightarrow>
         (\<lambda>st1. case resolve w p ''app'' (app rows) st1 of Inl x \<Rightarrow> Inl x | Inr st2 \<Rightarrow>
            (\<lambda>st2. case resolve w p ''env'' (env rows) st2 of Inl x \<Rightarrow> Inl x | Inr st3 \<Rightarrow>
               resolve w p ''loc'' (loc rows) st3) st2) st1)"
    by (intro ext) (simp add: resolve_row_def)
  then show ?thesis
    using preserves_seq [OF preserves_resolve [of w p "''role''" "role rows"]
        preserves_seq [OF preserves_resolve [of w p "''app''" "app rows"]
          preserves_seq [OF preserves_resolve [of w p "''env''" "env rows"]
            preserves_resolve [of w p "''loc''" "loc rows"]]]]
    by simp
qed

lemma preserves_fetched:
  "preserves (\<lambda>st. case resolve_row w p rows st of Inl x \<Rightarrow> Inl x
                    | Inr st2 \<Rightarrow> match_row w p target obj st2)"
  by (rule preserves_seq [OF preserves_resolve_row preserves_match_row])

lemma preserves_workload_row_step: "preserves (workload_row_step w p rows)"
proof (rule preservesI)
  fix st e st'
  assume h: "creates_once st" "created_in_catalog st"
    and r: "workload_row_step w p rows st = Inl (e, st')"
  have h1: "creates_once (st\<lparr>trace := trace st @ [GET (API p)]\<rparr>)"
      "created_in_catalog (st\<lparr>trace := trace st @ [GET (API p)]\<rparr>)"
    using h by (auto simp add: creates_once_def created_in_catalog_def)
  show "creates_once st'"
  proof (cases "respond w (trace st) (GET (API p))")
    case Raises
    with r h1 show ?thesis by (simp add: workload_row_step_def Let_def)
  next
    case (Response status body)
    show ?thesis
    proof (cases "loads_workloads w body")
      case None
      with r h1 Response show ?thesis by (simp add: workload_row_step_def Let_def)
    next
      case (Some obj)
      with r Response have
        "(case resolve_row w p rows (st\<lparr>trace := trace st @ [GET (API p)]\<rparr>) of Inl x \<Rightarrow> Inl x
          | Inr st2 \<Rightarrow> match_row w p (ip rows) obj st2) = Inl (e, st')"
        by (simp add: workload_row_step_def Let_def)
      then show ?thesis
        using preserves_Inl [OF preserves_fetched h1] by blast
    qed
  qed
next
  fix st st'
  assume h: "creates_once st" "created_in_catalog st"
    and r: "workload_row_step w p rows st = Inr st'"
  have h1: "creates_once (st\<lparr>trace := trace st @ [GET (API p)]\<rparr>)"
      "created_in_catalog (st\<lparr>trace := trace st @ [GET (API p)]\<rparr>)"
    using h by (auto simp add: creates_once_def created_in_catalog_def)
  from r obtain obj where
    "(case resolve_row w p rows (st\<lparr>trace := trace st @ [GET (API p)]\<rparr>) of Inl x \<Rightarrow> Inl x
      | Inr st2 \<Rightarrow> match_row w p (ip rows) obj st2) = Inr st'"
    by (auto simp add: workload_row_step_def Let_def split: http.splits option.splits)
  then show "creates_once st' \<and> created_in_catalog st'"
    using preserves_Inr [OF preserves_fetched h1] by blast
qed

lemma preserves_workload_rows: "preserves (workload_rows w p rows)"
proof (induction rows)
  case Nil
  have "workload_rows w p [] = Inr" by (rule ext) simp
  then show ?case by (simp add: preserves_skip)
next
  case (Cons r rows)
  have "workload_rows w p (r # rows) =
      (\<lambda>st. case workload_row_step w p r st of
              Inl x \<Rightarrow> Inl x | Inr st' \<Rightarrow> workload_rows w p rows st')"
    by (intro ext) simp
  then show ?case
    using preserves_seq [OF preserves_workload_row_step Cons.IH] by simp
qed

lemma display_labels_trace:
  "display_labels w p st = Inl (e, st') \<Longrightarrow> trace st' = trace st @ [GET (labels_API p)]"
  "display_labels w p st = Inr (labels, st') \<Longrightarrow> st' = st\<lparr>trace := trace st @ [GET (labels_API p)]\<rparr>"
  by (auto simp add: display_labels_def Let_def split: http.splits sum.splits option.splits if_splits)

lemma run_module_assign_creates_once:
  "creates_once (snd (run_module_assign w p))"
proof (cases "check_mode p")
  case True
  then show ?thesis by (simp add: run_module_assign_def creates_once_def)
next
  case False
  let ?st = "\<lparr>trace = [], labels_details = (\<lambda>t. Map.empty), hrefs = Map.empty, check = 0,
               assigned = [], not_assigned = []\<rparr>"
  show ?thesis
  proof (cases "display_labels w p ?st")
    case (Inl x)
    obtain e st1 where x: "x = (e, st1)" by (cases x)
    from display_labels_trace(1) [of w p ?st e st1] Inl x
    have "trace st1 = [GET (labels_API p)]" by simp
    then show ?thesis using False Inl x
      by (simp add: run_module_assign_def creates_once_def)
  next
    case (Inr y)
    obtain labels st1 where y: "y = (labels, st1)" by (cases y)
    from display_labels_trace(2) [of w p ?st labels st1] Inr y
    have st1: "st1 = ?st\<lparr>trace := [GET (labels_API p)]\<rparr>" by simp
    have g: "creates_once (st1\<lparr>labels_details := labels\<rparr>)"
        "created_in_catalog (st1\<lparr>labels_details := labels\<rparr>)"
      using st1 by (simp_all add: creates_once_def created_in_catalog_def)
    show ?thesis
    proof (cases "csv_workloads w (workload p)")
      case None
      then show ?thesis using False Inr y st1
        by (simp add: run_module_assign_def creates_once_def)
    next
      case (Some reader)
      show ?thesis
      proof (cases "workload_rows w p reader (st1\<lparr>labels_details := labels\<rparr>)")
        case (Inl x)
        obtain e st2 where x: "x = (e, st2)" by (cases x)
        from preserves_Inl [OF preserves_workload_rows g] Inl x have "creates_once st2" by blast
        then show ?thesis using False Inr y Some Inl x
          by (simp add: run_module_assign_def)
      next
        case (Inr st2)
        from preserves_Inr [OF preserves_workload_rows g Inr] have "creates_once st2" by blast
        then show ?thesis using False \<open>display_labels w p ?st = Inr y\<close> y Some Inr
          by (simp add: run_module_assign_def)
      qed
    qed
  qed
qed


lemma resolve_shape:
  assumes "resolve w p t field st = Inr st'"
  shows "st' = st
       \<or> (\<exists>v h. field = Some v \<and> labels_details st t v = Some h \<and>
                st' = st\<lparr>hrefs := (hrefs st)(t \<mapsto> h)\<rparr>)
       \<or> (\<exists>v x. field = Some v \<and> labels_details st t v = None \<and>
                st' = st\<lparr>trace := trace st @ [POST (labels_API p) t (Some v)],
                        labels_details := (labels_details st)(t := (labels_details st t)(v \<mapsto> x)),
                        hrefs := (hrefs st)(t \<mapsto> x)\<rparr>)"
proof (cases field)
  case None
  with assms show ?thesis by (simp add: resolve_absent)
next
  case (Some v)
  show ?thesis
  proof (cases "labels_details st t v")
    case (Some h)
    with assms \<open>field = Some v\<close> show ?thesis by (simp add: resolve_hit)
  next
    case None
    show ?thesis
    proof (cases "respond w (trace st) (POST (labels_API p) t (Some v))")
      case Raises
      with assms None \<open>field = Some v\<close> show ?thesis by (simp add: resolve_raises)
    next
      case (Response status body)
      show ?thesis
      proof (cases body)
        case Nil
        with assms None Response \<open>field = Some v\<close> show ?thesis
          by (simp add: resolve_empty_body)
      next
        case (Cons c cs)
        with assms None Response \<open>field = Some v\<close>
        have "st' = st\<lparr>trace := trace st @ [POST (labels_API p) t (Some v)],
             labels_details :=
               (labels_details st)(t := (labels_details st t)(v \<mapsto> IntV (of_char c))),
             hrefs := (hrefs st)(t \<mapsto> IntV (of_char c))\<rparr>"
          by (simp add: resolve_created)
        with None \<open>field = Some v\<close> show ?thesis by blast
      qed
    qed
  qed
qed

lemma relatesI: "(\<And>st st'. f st = Inr st' \<Longrightarrow> R st st') \<Longrightarrow> relates R f"
  by (simp add: relates_def)

lemma relatesD: "relates R f \<Longrightarrow> f st = Inr st' \<Longrightarrow> R st st'"
  by (simp add: relates_def)

lemma relates_seq:
  assumes "transp R" and "relates R f" and "relates R g"
  shows "relates R (\<lambda>st. case f st of Inl x \<Rightarrow> Inl x | Inr st' \<Rightarrow> g st')"
proof (rule relatesI)
  fix st st'
  assume r: "(case f st of Inl x \<Rightarrow> Inl x | Inr st' \<Rightarrow> g st') = Inr st'"
  then obtain s1 where "f st = Inr s1" "g s1 = Inr st'"
    by (cases "f st") auto
  then show "R st st'"
    using relatesD [OF assms(2)] relatesD [OF assms(3)] transpD [OF assms(1)] by blast
qed

lemma relates_workload_rows:
  assumes refl: "reflp R"
    and trans: "transp R"
    and res: "\<And>t field. relates R (resolve w p t field)"
    and upd: "\<And>target v. relates R (update_workload w p target v)"
    and chk: "\<And>s. R s (s\<lparr>check := 0\<rparr>)"
    and miss: "\<And>s x. R s (s\<lparr>not_assigned := not_assigned s @ [x]\<rparr>)"
    and get: "\<And>s. R s (s\<lparr>trace := trace s @ [GET (API p)]\<rparr>)"
  shows "relates R (workload_rows w p rows)"
proof -
  have skip: "relates R Inr"
    using reflpD [OF refl] by (simp add: relates_def)
  have ifs: "relates R (for_interfaces w p target v ifs)" for target v ifs
  proof (induction ifs)
    case Nil
    have "for_interfaces w p target v [] = Inr" by (rule ext) simp
    then show ?case using skip by simp
  next
    case (Cons d ifs)
    show ?case
    proof (cases "address d = target \<or> public_ip v = target")
      case True
      then have "for_interfaces w p target v (d # ifs) =
          (\<lambda>st. case update_workload w p target v st of
                  Inl x \<Rightarrow> Inl x | Inr st' \<Rightarrow> for_interfaces w p target v ifs st')"
        by (intro ext) simp
      then show ?thesis
        using relates_seq [OF trans upd Cons.IH] by simp
    next
      case False
      then have "for_interfaces w p target v (d # ifs) = for_interfaces w p target v ifs"
        by (intro ext) simp
      then show ?thesis using Cons.IH by simp
    qed
  qed
  have wls: "relates R (for_workloads w p target obj)" for target obj
  proof (induction obj)
    case Nil
    have "for_workloads w p target [] = Inr" by (rule ext) simp
    then show ?case using skip by simp
  next
    case (Cons v obj)
    have "for_workloads w p target (v # obj) =
        (\<lambda>st. case for_interfaces w p target v (interfaces v) st of
                Inl x \<Rightarrow> Inl x | Inr st' \<Rightarrow> for_workloads w p target obj st')"
      by (intro ext) simp
    then show ?case
      using relates_seq [OF trans ifs Cons.IH] by simp
  qed
  have match: "relates R (match_row w p target obj)" for target obj
  proof (rule relatesI)
    fix st st'
    assume "match_row w p target obj st = Inr st'"
    then obtain s1 where s1: "for_workloads w p target obj (st\<lparr>check := 0\<rparr>) = Inr s1"
      and st': "st' = (if check s1 = 0 then s1\<lparr>not_assigned := not_assigned s1 @ [target]\<rparr>
                       else s1)"
      by (auto simp add: match_row_def split: sum.splits)
    have "R st (st\<lparr>check := 0\<rparr>)" by (rule chk)
    moreover have "R (st\<lparr>check := 0\<rparr>) s1" using relatesD [OF wls s1] .
    moreover have "R s1 st'" using st' reflpD [OF refl] miss by simp
    ultimately show "R st st'" using transpD [OF trans] by blast
  qed
  have resolved: "relates R (resolve_row w p r)" for r
  proof -
    have "resolve_row w p r =
        (\<lambda>st. case resolve w p ''role'' (role r) st of Inl x \<Rightarrow> Inl x | Inr st1 \<Rightarrow>
           (\<lambda>st1. case resolve w p ''app'' (app r) st1 of Inl x \<Rightarrow> Inl x | Inr st2 \<Rightarrow>
              (\<lambda>st2. case resolve w p ''env'' (env r) st2 of Inl x \<Rightarrow> Inl x | Inr st3 \<Rightarrow>
                 resolve w p ''loc'' (loc r) st3) st2) st1)"
      by (intro ext) (simp add: resolve_row_def)
    then show ?thesis
      using relates_seq [OF trans res [of "''role''" "role r"]
          relates_seq [OF trans res [of "''app''" "app r"]
            relates_seq [OF trans res [of "''env''" "env r"]
              res [of "''loc''" "loc r"]]]]
      by simp
  qed
  have step: "relates R (workload_row_step w p r)" for r
  proof (rule relatesI)
    fix st st'
    assume "workload_row_step w p r st = Inr st'"
    then obtain obj where
      "(case resolve_row w p r (st\<lparr>trace := trace st @ [GET (API p)]\<rparr>) of Inl x \<Rightarrow> Inl x
        | Inr st2 \<Rightarrow> match_row w p (ip r) obj st2) = Inr st'"
      by (auto simp add: workload_row_step_def Let_def split: http.splits option.splits)
    then have "R (st\<lparr>trace := trace st @ [GET (API p)]\<rparr>) st'"
      using relatesD [OF relates_seq [OF trans resolved match]] by blast
    then show "R st st'" using get transpD [OF trans] by blast
  qed
  show ?thesis
  proof (induction rows)
    case Nil
    have "workload_rows w p [] = Inr" by (rule ext) simp
    then show ?case using skip by simp
  next
    case (Cons r rows)
    have "workload_rows w p (r # rows) =
        (\<lambda>st. case workload_row_step w p r st of
                Inl x \<Rightarrow> Inl x | Inr st' \<Rightarrow> workload_rows w p rows st')"
      by (intro ext) simp
    then show ?case
      using relates_seq [OF trans step Cons.IH] by simp
  qed
qed

lemma update_workload_Inr:
  assumes "update_workload w p target v st = Inr st'"
  shows "\<exists>q. is_PUT q \<and>
           st' = st\<lparr>check := 1, trace := trace st @ [q], assigned := assigned st @ [target]\<rparr>"
  using update_workload_shape [of w p target v st] assms by auto

lemma catalog_kept_rows: "relates catalog_kept (workload_rows w p rows)"
proof (rule relates_workload_rows)
  fix t field
  show "relates catalog_kept (resolve w p t field)"
  proof (rule relatesI)
    fix st st'
    assume "resolve w p t field st = Inr st'"
    from resolve_shape [OF this] show "catalog_kept st st'"
      by (auto simp add: catalog_kept_def)
  qed
next
  fix target v
  show "relates catalog_kept (update_workload w p target v)"
  proof (rule relatesI)
    fix st st'
    assume "update_workload w p target v st = Inr st'"
    from update_workload_Inr [OF this] show "catalog_kept st st'"
      by (auto simp add: catalog_kept_def)
  qed
qed (auto simp add: catalog_kept_def intro!: reflpI transpI)

lemma misses_kept_rows: "relates misses_kept (workload_rows w p rows)"
proof (rule relates_workload_rows)
  fix t field
  show "relates misses_kept (resolve w p t field)"
  proof (rule relatesI)
    fix st st'
    assume "resolve w p t field st = Inr st'"
    from resolve_shape [OF this] show "misses_kept st st'"
      by (auto simp add: misses_kept_def)
  qed
next
  fix target v
  show "relates misses_kept (update_workload w p target v)"
  proof (rule relatesI)
    fix st st'
    assume "update_workload w p target v st = Inr st'"
    from update_workload_Inr [OF this] show "misses_kept st st'"
      by (auto simp add: misses_kept_def)
  qed
qed (auto simp add: misses_kept_def intro!: reflpI transpI)

lemma assigned_counts_rows: "relates assigned_counts (workload_rows w p rows)"
proof (rule relates_workload_rows)
  fix t field
  show "relates assigned_counts (resolve w p t field)"
  proof (rule relatesI)
    fix st st'
    assume "resolve w p t field st = Inr st'"
    from resolve_shape [OF this] show "assigned_counts st st'"
      by (auto simp add: assigned_counts_def)
  qed
next
  fix target v
  show "relates assigned_counts (update_workload w p target v)"
  proof (rule relatesI)
    fix st st'
    assume "update_workload w p target v st = Inr st'"
    from update_workload_Inr [OF this] show "assigned_counts st st'"
      by (auto simp add: assigned_counts_def)
  qed
qed (auto simp add: assigned_counts_def intro!: reflpI transpI)

lemmas assign_unfold = run_module_assign_def display_labels_def labels_API_def API_def store_label_def
     workload_row_step_def resolve_row_def resolve_def create_label_def match_row_def async_api_def
     update_workload_def build_label_def append_href_def Let_def
     p_assign_def assign_world_def catalog_listing_def example_row_def example_workload_def

text \<open>
  C4. In a run of the assignment module, whatever the platform answers and however the run
  ends, no create request is sent twice: the create requests of the run are pairwise
  distinct, and each carries its (type, value) pair. A pair found in the catalog is resolved
  to the catalog's identifier without any request; a resolution that returns leaves the
  pair in the catalog with the identifier it bound; and an entry of the catalog stays as it
  is through all the rows processed after it.
\<close>

theorem create_once_per_pair:
  "distinct (filter is_POST (trace (snd (run_module_assign w p))))
   \<and> (labels_details st t v = Some h
        \<longrightarrow> resolve w p t (Some v) st = Inr (st\<lparr>hrefs := (hrefs st)(t \<mapsto> h)\<rparr>))
   \<and> (resolve w p t (Some v) st = Inr st'
        \<longrightarrow> (\<exists>x. labels_details st' t v = Some x \<and> hrefs st' t = Some x))
   \<and> (workload_rows w p rows st' = Inr fin \<and> labels_details st' t v = Some h
        \<longrightarrow> labels_details fin t v = Some h)"
proof (intro conjI impI)
  show "distinct (filter is_POST (trace (snd (run_module_assign w p))))"
    using run_module_assign_creates_once [of w p] by (simp add: creates_once_def)
next
  assume "labels_details st t v = Some h"
  then show "resolve w p t (Some v) st = Inr (st\<lparr>hrefs := (hrefs st)(t \<mapsto> h)\<rparr>)"
    by (rule resolve_hit)
next
  assume r: "resolve w p t (Some v) st = Inr st'"
  show "\<exists>x. labels_details st' t v = Some x \<and> hrefs st' t = Some x"
  proof (cases "labels_details st t v")
    case (Some x)
    with r have "st' = st\<lparr>hrefs := (hrefs st)(t \<mapsto> x)\<rparr>" by (simp add: resolve_hit)
    with Some show ?thesis by simp
  next
    case None
    show ?thesis
    proof (cases "respond w (trace st) (POST (labels_API p) t (Some v))")
      case Raises
      with r None show ?thesis by (simp add: resolve_raises)
    next
      case (Response status body)
      show ?thesis
      proof (cases body)
        case Nil
        with r None Response show ?thesis by (simp add: resolve_empty_body)
      next
        case (Cons c cs)
        with r None Response show ?thesis by (auto simp add: resolve_created)
      qed
    qed
  qed
next
  assume "workload_rows w p rows st' = Inr fin \<and> labels_details st' t v = Some h"
  then show "labels_details fin t v = Some h"
    using relatesD [OF catalog_kept_rows, of w p rows st' fin]
    by (simp add: catalog_kept_def)
qed

theorem create_once_per_pair_witness:
  "filter is_POST (trace (snd (run_module_assign world_new_role_twice p_assign)))
     = [POST ''https://pce/api/v2/orgs/1/labels'' ''role'' (Some ''db'')]
   \<and> distinct (filter is_POST (trace (snd (run_module_assign world_new_role_twice p_assign))))"
  using create_once_per_pair [where w = world_new_role_twice and p = p_assign]
  by (simp add: assign_unfold world_new_role_twice_def)

text \<open>
  C1 at a workload whose \<^verbatim>\<open>public_ip\<close> is the row's IP and whose \<^verbatim>\<open>interfaces\<close> list is empty:
  the comparison with \<^verbatim>\<open>public_ip\<close> stands inside the loop over the interfaces, so it is
  never evaluated; the run sends no update request and reports the IP as not assigned.
\<close>

theorem public_ip_without_interfaces_unmatched:
  "fst (run_module_assign world_no_interfaces p_assign) = Exit_assigned [] [''192.168.1.113'']
   \<and> trace (snd (run_module_assign world_no_interfaces p_assign))
       = [GET ''https://pce/api/v2/orgs/1/labels'',
          GET ''https://pce/api/v2/orgs/1/workloads?managed=true'']"
  by (simp add: assign_unfold world_no_interfaces_def)

text \<open>
  C2 at a row whose role cell is empty: the empty string is not \<^verbatim>\<open>None\<close>, so the role is
  resolved like any other value; a label with the empty value is created and the update
  request carries four references, the first the integer read from the create response.
\<close>

theorem empty_field_not_omitted:
  "trace (snd (run_module_assign world_empty_role p_assign)) =
     [GET ''https://pce/api/v2/orgs/1/labels'',
      GET ''https://pce/api/v2/orgs/1/workloads?managed=true'',
      POST ''https://pce/api/v2/orgs/1/labels'' ''role'' (Some []),
      PUT ''https://pce/api/v2/orgs/1/workloads/a''
        [IntV 123, Href ''/orgs/1/labels/2'', Href ''/orgs/1/labels/3'',
         Href ''/orgs/1/labels/4'']]"
  by (simp add: assign_unfold world_empty_role_def)

text \<open>
  C8 at a labels listing whose body is 500 bytes long (a JSON array padded with blanks):
  the condition of line 117 holds, \<^verbatim>\<open>response\<close> becomes a coroutine object, and reading its
  \<^verbatim>\<open>content\<close> raises; the run ends there, after the one request.
\<close>

theorem labels_body_of_500_bytes_raises:
  "length (''['' @ replicate 498 CHR '' '' @ '']'') = 500
   \<and> respond world_500 [] (GET (labels_API p_assign))
       = Response 200 (''['' @ replicate 498 CHR '' '' @ '']'')
   \<and> loads_labels world_500 (''['' @ replicate 498 CHR '' '' @ '']'') = Some []
   \<and> fst (run_module_assign world_500 p_assign) = Raised AttributeError
   \<and> trace (snd (run_module_assign world_500 p_assign)) = [GET ''https://pce/api/v2/orgs/1/labels'']"
  by (simp add: assign_unfold world_500_def)

text \<open>
  The claim C9 as stated fails: two rows with the same IP, each matching the one workload,
  put the IP into \<^verbatim>\<open>labels_assigned\<close> twice.
\<close>

theorem assigned_repeats_ip_counterexample:
  "fst (run_module_assign world_same_ip_twice p_assign)
     = Exit_assigned [''192.168.1.113'', ''192.168.1.113''] []"
  by (simp add: assign_unfold world_same_ip_twice_def)

lemma for_interfaces_no_match:
  assumes "public_ip v \<noteq> target" and "\<forall>d\<in>set ifs. address d \<noteq> target"
  shows "for_interfaces w p target v ifs st = Inr st"
  using assms(2) by (induction ifs) (simp_all add: assms(1))

lemma for_workloads_no_match:
  assumes "\<forall>v\<in>set obj. public_ip v \<noteq> target \<and> (\<forall>d\<in>set (interfaces v). address d \<noteq> target)"
  shows "for_workloads w p target obj st = Inr st"
  using assms by (induction obj) (simp_all add: for_interfaces_no_match)

lemma for_workloads_append:
  "for_workloads w p target (pre @ post) st =
     (case for_workloads w p target pre st of
        Inl x \<Rightarrow> Inl x
      | Inr st' \<Rightarrow> for_workloads w p target post st')"
  by (induction pre arbitrary: st) (simp_all split: sum.splits)

lemma match_row_no_match:
  assumes "\<forall>v\<in>set obj. public_ip v \<noteq> target \<and> (\<forall>d\<in>set (interfaces v). address d \<noteq> target)"
  shows "match_row w p target obj st =
           Inr (st\<lparr>check := 0, not_assigned := not_assigned st @ [target]\<rparr>)"
  by (simp add: match_row_def for_workloads_no_match [OF assms])

lemma relates_resolve_row:
  assumes trans: "transp R" and res: "\<And>t field. relates R (resolve w p t field)"
  shows "relates R (resolve_row w p r)"
proof -
  have "resolve_row w p r =
      (\<lambda>st. case resolve w p ''role'' (role r) st of Inl x \<Rightarrow> Inl x | Inr st1 \<Rightarrow>
         (\<lambda>st1. case resolve w p ''app'' (app r) st1 of Inl x \<Rightarrow> Inl x | Inr st2 \<Rightarrow>
            (\<lambda>st2. case resolve w p ''env'' (env r) st2 of Inl x \<Rightarrow> Inl x | Inr st3 \<Rightarrow>
               resolve w p ''loc'' (loc r) st3) st2) st1)"
    by (intro ext) (simp add: resolve_row_def)
  then show ?thesis
    using relates_seq [OF trans res [of "''role''" "role r"]
        relates_seq [OF trans res [of "''app''" "app r"]
          relates_seq [OF trans res [of "''env''" "env r"]
            res [of "''loc''" "loc r"]]]]
    by simp
qed

lemma resolve_row_untouched: "relates rows_untouched (resolve_row w p r)"
proof (rule relates_resolve_row)
  show "transp rows_untouched"
    by (rule transpI) (simp add: rows_untouched_def)
next
  fix t field
  show "relates rows_untouched (resolve w p t field)"
  proof (rule relatesI)
    fix st st'
    assume "resolve w p t field st = Inr st'"
    from resolve_shape [OF this] show "rows_untouched st st'"
      by (auto simp add: rows_untouched_def)
  qed
qed

lemma workload_row_step_fetched:
  assumes "respond w (trace st) (GET (API p)) = Response status body"
    and "loads_workloads w body = Some obj"
  shows "workload_row_step w p r st =
           (case resolve_row w p r (st\<lparr>trace := trace st @ [GET (API p)]\<rparr>) of
              Inl x \<Rightarrow> Inl x
            | Inr st2 \<Rightarrow> match_row w p (ip r) obj st2)"
  using assms by (simp add: workload_row_step_def Let_def)

lemma match_row_single:
  assumes "public_ip v = target" and "interfaces v = [d]"
    and "\<forall>x\<in>set pre \<union> set post.
           public_ip x \<noteq> target \<and> (\<forall>i\<in>set (interfaces x). address i \<noteq> target)"
    and "build_label (hrefs st) = Inr label"
    and "respond w (trace st) (PUT (pce p @ ''/api/v2'' @ workload_href v) label)
           = Response status body"
  shows "match_row w p target (pre @ v # post) st =
           Inr (st\<lparr>check := 1,
                   trace := trace st @ [PUT (pce p @ ''/api/v2'' @ workload_href v) label],
                   assigned := assigned st @ [target]\<rparr>)"
proof -
  let ?s0 = "st\<lparr>check := 0\<rparr>"
  let ?s1 = "?s0\<lparr>check := 1,
                 trace := trace ?s0 @ [PUT (pce p @ ''/api/v2'' @ workload_href v) label],
                 assigned := assigned ?s0 @ [target]\<rparr>"
  have pre: "for_workloads w p target pre ?s0 = Inr ?s0"
    using assms(3) by (intro for_workloads_no_match) auto
  have upd: "update_workload w p target v ?s0 = Inr ?s1"
    using assms(4,5) by (intro update_workload_sent) simp_all
  have one: "for_interfaces w p target v (interfaces v) ?s0 = Inr ?s1"
    using assms(1,2) upd by simp
  have post: "for_workloads w p target post ?s1 = Inr ?s1"
    using assms(3) by (intro for_workloads_no_match) auto
  have "for_workloads w p target (pre @ v # post) ?s0 = Inr ?s1"
    using pre one post by (simp add: for_workloads_append)
  then show ?thesis by (simp add: match_row_def)
qed

lemmas state_unfold = state_after_listing_def state_resolved_def unmatched_row_def

lemma run_module_assign_exit_rows:
  assumes "fst (run_module_assign w p) = Exit_assigned a n"
  shows "\<exists>labels rows st2.
           csv_workloads w (workload p) = Some rows
           \<and> workload_rows w p rows
             \<lparr>trace = [GET (labels_API p)], labels_details = labels, hrefs = Map.empty,
              check = 0, assigned = [], not_assigned = []\<rparr> = Inr st2
           \<and> run_module_assign w p = (Exit_assigned (assigned st2) (not_assigned st2), st2)"
proof -
  let ?st = "\<lparr>trace = [], labels_details = (\<lambda>t. Map.empty), hrefs = Map.empty, check = 0,
               assigned = [], not_assigned = []\<rparr>"
  have nc: "\<not> check_mode p"
    using assms by (auto simp add: run_module_assign_def)
  show ?thesis
  proof (cases "display_labels w p ?st")
    case (Inl x)
    with assms nc show ?thesis
      by (cases x) (simp add: run_module_assign_def)
  next
    case (Inr y)
    obtain labels st1 where y: "y = (labels, st1)" by (cases y)
    from display_labels_trace(2) [of w p ?st labels st1] Inr y
    have st1: "st1 = ?st\<lparr>trace := [GET (labels_API p)]\<rparr>" by simp
    show ?thesis
    proof (cases "csv_workloads w (workload p)")
      case None
      with assms nc Inr y show ?thesis by (simp add: run_module_assign_def)
    next
      case (Some rows)
      show ?thesis
      proof (cases "workload_rows w p rows (st1\<lparr>labels_details := labels\<rparr>)")
        case (Inl x)
        with assms nc \<open>display_labels w p ?st = Inr y\<close> y Some show ?thesis
          by (cases x) (simp add: run_module_assign_def)
      next
        case (Inr st2)
        then have "run_module_assign w p = (Exit_assigned (assigned st2) (not_assigned st2), st2)"
          using nc \<open>display_labels w p ?st = Inr y\<close> y Some by (simp add: run_module_assign_def)
        moreover have "workload_rows w p rows
             \<lparr>trace = [GET (labels_API p)], labels_details = labels, hrefs = Map.empty,
              check = 0, assigned = [], not_assigned = []\<rparr> = Inr st2"
          using Inr st1 by simp
        ultimately show ?thesis using Some by blast
      qed
    qed
  qed
qed

lemma workload_row_step_returns:
  assumes "workload_row_step w p r st = Inr s1"
  shows "\<exists>status body obj st2.
           respond w (trace st) (GET (API p)) = Response status body
           \<and> loads_workloads w body = Some obj
           \<and> resolve_row w p r (st\<lparr>trace := trace st @ [GET (API p)]\<rparr>) = Inr st2
           \<and> match_row w p (ip r) obj st2 = Inr s1"
proof (cases "respond w (trace st) (GET (API p))")
  case Raises
  with assms show ?thesis by (simp add: workload_row_step_def Let_def)
next
  case (Response status body)
  show ?thesis
  proof (cases "loads_workloads w body")
    case None
    with assms Response show ?thesis by (simp add: workload_row_step_def Let_def)
  next
    case (Some obj)
    show ?thesis
    proof (cases "resolve_row w p r (st\<lparr>trace := trace st @ [GET (API p)]\<rparr>)")
      case (Inl x)
      with assms workload_row_step_fetched [OF Response Some, of r] show ?thesis by simp
    next
      case (Inr st2)
      with assms workload_row_step_fetched [OF Response Some, of r]
      have "match_row w p (ip r) obj st2 = Inr s1" by simp
      with Response Some Inr show ?thesis by blast
    qed
  qed
qed

lemma unmatched_rows_recorded:
  assumes never: "\<forall>h status body obj.
      respond w h (GET (API p)) = Response status body \<and> loads_workloads w body = Some obj
      \<longrightarrow> (\<forall>v\<in>set obj. public_ip v \<noteq> x \<and> (\<forall>d\<in>set (interfaces v). address d \<noteq> x))"
    and "workload_rows w p rows st = Inr fin" and "r \<in> set rows" and "ip r = x"
  shows "x \<in> set (not_assigned fin)"
  using assms(2,3)
proof (induction rows arbitrary: st)
  case Nil
  then show ?case by simp
next
  case (Cons r0 rows)
  from Cons.prems(1) obtain s1 where s1: "workload_row_step w p r0 st = Inr s1"
    and rest: "workload_rows w p rows s1 = Inr fin"
    by (cases "workload_row_step w p r0 st") auto
  show ?case
  proof (cases "r = r0")
    case True
    from workload_row_step_returns [OF s1] obtain status body obj st2 where
      f: "respond w (trace st) (GET (API p)) = Response status body"
      "loads_workloads w body = Some obj"
      and m: "match_row w p (ip r0) obj st2 = Inr s1"
      by blast
    from never f have "\<forall>v\<in>set obj. public_ip v \<noteq> x \<and> (\<forall>d\<in>set (interfaces v). address d \<noteq> x)"
      by blast
    then have "match_row w p x obj st2 =
        Inr (st2\<lparr>check := 0, not_assigned := not_assigned st2 @ [x]\<rparr>)"
      by (rule match_row_no_match)
    with m True assms(4) have "x \<in> set (not_assigned s1)" by auto
    moreover have "misses_kept s1 fin" using relatesD [OF misses_kept_rows rest] .
    ultimately show ?thesis by (auto simp add: misses_kept_def)
  next
    case False
    with Cons.prems(2) have "r \<in> set rows" by simp
    from Cons.IH [OF rest this] show ?thesis .
  qed
qed

text \<open>
  C3. Take a CSV row whose IP equals no \<^verbatim>\<open>public_ip\<close> and no interface address of the
  workloads fetched for it, and whose labels resolve without an exception. Processing the
  row returns; it appends the IP to \<^verbatim>\<open>not_assigned\<close>, leaves \<^verbatim>\<open>assigned\<close> as it was and sends
  no update request (the PUT requests of the trace are those sent before the row); and
  when the rows after it are processed to the end, the IP is in the final \<^verbatim>\<open>not_assigned\<close>
  list. For the whole run: when no fetch ever serves a workload with the IP of a row of the
  CSV and the run ends normally, the reported \<^verbatim>\<open>not_assigned\<close> list holds that IP.
\<close>

theorem unmatched_ip_recorded:
  "(respond w (trace st) (GET (API p)) = Response status body \<and>
    loads_workloads w body = Some obj \<and>
    (\<forall>v\<in>set obj. public_ip v \<noteq> ip r \<and> (\<forall>d\<in>set (interfaces v). address d \<noteq> ip r)) \<and>
    resolve_row w p r (st\<lparr>trace := trace st @ [GET (API p)]\<rparr>) = Inr st2
    \<longrightarrow> workload_row_step w p r st =
           Inr (st2\<lparr>check := 0, not_assigned := not_assigned st2 @ [ip r]\<rparr>)
       \<and> not_assigned st2 = not_assigned st
       \<and> assigned st2 = assigned st
       \<and> filter is_PUT (trace st2) = filter is_PUT (trace st)
       \<and> (\<forall>fin. workload_rows w p rest
                   (st2\<lparr>check := 0, not_assigned := not_assigned st2 @ [ip r]\<rparr>) = Inr fin
              \<longrightarrow> workload_rows w p (r # rest) st = Inr fin \<and> ip r \<in> set (not_assigned fin)))
   \<and> ((\<forall>h status body obj.
          respond w h (GET (API q)) = Response status body \<and> loads_workloads w body = Some obj
          \<longrightarrow> (\<forall>v\<in>set obj. public_ip v \<noteq> ip r \<and> (\<forall>d\<in>set (interfaces v). address d \<noteq> ip r))) \<and>
       csv_workloads w (workload q) = Some rows \<and> r \<in> set rows \<and>
       fst (run_module_assign w q) = Exit_assigned a n
    \<longrightarrow> ip r \<in> set n)"
proof -
  have row: "workload_row_step w p r st =
           Inr (st2\<lparr>check := 0, not_assigned := not_assigned st2 @ [ip r]\<rparr>)
       \<and> not_assigned st2 = not_assigned st
       \<and> assigned st2 = assigned st
       \<and> filter is_PUT (trace st2) = filter is_PUT (trace st)
       \<and> (\<forall>fin. workload_rows w p rest
                   (st2\<lparr>check := 0, not_assigned := not_assigned st2 @ [ip r]\<rparr>) = Inr fin
              \<longrightarrow> workload_rows w p (r # rest) st = Inr fin \<and> ip r \<in> set (not_assigned fin))"
    if fetch: "respond w (trace st) (GET (API p)) = Response status body"
      and decoded: "loads_workloads w body = Some obj"
      and nomatch: "\<forall>v\<in>set obj. public_ip v \<noteq> ip r \<and> (\<forall>d\<in>set (interfaces v). address d \<noteq> ip r)"
      and resolved: "resolve_row w p r (st\<lparr>trace := trace st @ [GET (API p)]\<rparr>) = Inr st2"
  proof -
    let ?st' = "st2\<lparr>check := 0, not_assigned := not_assigned st2 @ [ip r]\<rparr>"
    have step: "workload_row_step w p r st = Inr ?st'"
      using workload_row_step_fetched [OF fetch decoded, of r] resolved
        match_row_no_match [OF nomatch, of w p st2]
      by simp
    have "rows_untouched (st\<lparr>trace := trace st @ [GET (API p)]\<rparr>) st2"
      using relatesD [OF resolve_row_untouched resolved] .
    then have same: "not_assigned st2 = not_assigned st" "assigned st2 = assigned st"
        "filter is_PUT (trace st2) = filter is_PUT (trace st)"
      by (simp_all add: rows_untouched_def)
    have later: "workload_rows w p (r # rest) st = Inr fin \<and> ip r \<in> set (not_assigned fin)"
      if fin: "workload_rows w p rest ?st' = Inr fin" for fin
    proof -
      have "misses_kept ?st' fin"
        using relatesD [OF misses_kept_rows fin] .
      then have "ip r \<in> set (not_assigned fin)"
        by (auto simp add: misses_kept_def)
      moreover have "workload_rows w p (r # rest) st = Inr fin"
        using step fin by simp
      ultimately show ?thesis by simp
    qed
    show ?thesis using step same later by blast
  qed
  have run: "ip r \<in> set n"
    if never: "\<forall>h status body obj.
          respond w h (GET (API q)) = Response status body \<and> loads_workloads w body = Some obj
          \<longrightarrow> (\<forall>v\<in>set obj. public_ip v \<noteq> ip r \<and> (\<forall>d\<in>set (interfaces v). address d \<noteq> ip r))"
      and csv: "csv_workloads w (workload q) = Some rows" and r: "r \<in> set rows"
      and e: "fst (run_module_assign w q) = Exit_assigned a n"
  proof -
    from run_module_assign_exit_rows [OF e] csv obtain labels st2 where
      rows: "workload_rows w q rows
             \<lparr>trace = [GET (labels_API q)], labels_details = labels, hrefs = Map.empty,
              check = 0, assigned = [], not_assigned = []\<rparr> = Inr st2"
      and out: "run_module_assign w q = (Exit_assigned (assigned st2) (not_assigned st2), st2)"
      by auto
    from unmatched_rows_recorded [OF never rows r refl] have "ip r \<in> set (not_assigned st2)" .
    then show ?thesis using e out by simp
  qed
  show ?thesis using row run by blast
qed

theorem unmatched_ip_recorded_witness:
  "(\<exists>s. workload_row_step world_unmatched p_assign unmatched_row state_after_listing = Inr s
       \<and> not_assigned s = [''19.16.1.111''] \<and> assigned s = []
       \<and> filter is_PUT (trace s) = []
       \<and> workload_rows world_unmatched p_assign [unmatched_row] state_after_listing = Inr s)
   \<and> fst (run_module_assign world_unmatched p_assign) = Exit_assigned [] [''19.16.1.111'']
   \<and> ''19.16.1.111'' \<in> set [''19.16.1.111'']"
proof -
  let ?st1 = "state_after_listing\<lparr>trace := trace state_after_listing @ [GET (API p_assign)]\<rparr>"
  have fetch: "respond world_unmatched (trace state_after_listing) (GET (API p_assign))
                 = Response 200 ''[workloads]''"
    by (simp add: world_unmatched_def assign_world_def API_def p_assign_def)
  have decoded: "loads_workloads world_unmatched ''[workloads]'' = Some [example_workload]"
    by (simp add: world_unmatched_def assign_world_def)
  have nomatch: "\<forall>v\<in>set [example_workload]. public_ip v \<noteq> ip unmatched_row \<and>
                   (\<forall>d\<in>set (interfaces v). address d \<noteq> ip unmatched_row)"
    by (simp add: example_workload_def unmatched_row_def example_row_def)
  obtain st2 where resolved: "resolve_row world_unmatched p_assign unmatched_row ?st1 = Inr st2"
    by (cases "resolve_row world_unmatched p_assign unmatched_row ?st1")
      (simp_all add: assign_unfold state_unfold world_unmatched_def)
  note t = unmatched_ip_recorded [where w = world_unmatched and r = unmatched_row]
  note row = t [where p = p_assign and st = state_after_listing and status = 200
      and body = "''[workloads]''" and obj = "[example_workload]" and ?st2.0 = st2 and rest = "[]",
      THEN conjunct1, rule_format, OF conjI [OF fetch conjI [OF decoded conjI [OF nomatch resolved]]]]
  let ?s = "st2\<lparr>check := 0, not_assigned := not_assigned st2 @ [ip unmatched_row]\<rparr>"
  from row have "workload_row_step world_unmatched p_assign unmatched_row state_after_listing = Inr ?s"
    and "not_assigned st2 = not_assigned state_after_listing"
    and "assigned st2 = assigned state_after_listing"
    and "filter is_PUT (trace st2) = filter is_PUT (trace state_after_listing)"
    and "workload_rows world_unmatched p_assign [unmatched_row] state_after_listing = Inr ?s"
    by simp_all
  then have first: "\<exists>s. workload_row_step world_unmatched p_assign unmatched_row state_after_listing
         = Inr s
       \<and> not_assigned s = [''19.16.1.111''] \<and> assigned s = []
       \<and> filter is_PUT (trace s) = []
       \<and> workload_rows world_unmatched p_assign [unmatched_row] state_after_listing = Inr s"
    by (intro exI [of _ ?s]) (simp add: state_unfold example_row_def)
  have out: "fst (run_module_assign world_unmatched p_assign) = Exit_assigned [] [''19.16.1.111'']"
    by (simp add: assign_unfold world_unmatched_def unmatched_row_def)
  have never: "\<forall>h status body obj.
          respond world_unmatched h (GET (API p_assign)) = Response status body \<and>
          loads_workloads world_unmatched body = Some obj
          \<longrightarrow> (\<forall>v\<in>set obj. public_ip v \<noteq> ip unmatched_row \<and>
                 (\<forall>d\<in>set (interfaces v). address d \<noteq> ip unmatched_row))"
    by (simp add: world_unmatched_def assign_world_def example_workload_def unmatched_row_def
        example_row_def)
  have csv: "csv_workloads world_unmatched (workload p_assign) = Some [unmatched_row]"
    by (simp add: world_unmatched_def assign_world_def)
  from t [where q = p_assign and rows = "[unmatched_row]" and a = "[]" and n = "[''19.16.1.111'']",
      THEN conjunct2, rule_format, OF conjI [OF never conjI [OF csv conjI [OF _ out]]]]
  have "ip unmatched_row \<in> set [''19.16.1.111'']" by simp
  then have mem: "''19.16.1.111'' \<in> set [''19.16.1.111'']" by simp
  show ?thesis using first out mem by blast
qed

text \<open>
  C9, as amended. \<^verbatim>\<open>labels_assigned\<close> is a list with one entry for every update request
  answered: a run that ends normally reports as many entries as it has sent update
  requests, so an IP is listed once per update request sent for it. A row whose IP is
  the \<^verbatim>\<open>public_ip\<close> of exactly one fetched workload, that workload having exactly one
  interface and no other fetched workload matching, adds exactly one entry for the IP and
  sends exactly one update request, to that workload's href with the row's label
  references (the row's labels resolving, the four identifiers being bound and the
  request not raising).
\<close>

theorem single_match_assigns_once:
  "(respond w (trace st) (GET (API p)) = Response status body \<and>
    loads_workloads w body = Some (pre @ v # post) \<and>
    public_ip v = ip r \<and> interfaces v = [d] \<and>
    (\<forall>x\<in>set pre \<union> set post.
        public_ip x \<noteq> ip r \<and> (\<forall>i\<in>set (interfaces x). address i \<noteq> ip r)) \<and>
    resolve_row w p r (st\<lparr>trace := trace st @ [GET (API p)]\<rparr>) = Inr st2 \<and>
    build_label (hrefs st2) = Inr label \<and>
    respond w (trace st2) (PUT (pce p @ ''/api/v2'' @ workload_href v) label)
      = Response status' body'
    \<longrightarrow> workload_row_step w p r st =
          Inr (st2\<lparr>check := 1,
                   trace := trace st2 @ [PUT (pce p @ ''/api/v2'' @ workload_href v) label],
                   assigned := assigned st2 @ [ip r]\<rparr>)
        \<and> assigned st2 = assigned st
        \<and> not_assigned st2 = not_assigned st
        \<and> filter is_PUT (trace st2) = filter is_PUT (trace st))
   \<and> (fst (run_module_assign w q) = Exit_assigned a n
    \<longrightarrow> length a = length (filter is_PUT (trace (snd (run_module_assign w q)))))"
proof -
  have row: "workload_row_step w p r st =
          Inr (st2\<lparr>check := 1,
                   trace := trace st2 @ [PUT (pce p @ ''/api/v2'' @ workload_href v) label],
                   assigned := assigned st2 @ [ip r]\<rparr>)
        \<and> assigned st2 = assigned st
        \<and> not_assigned st2 = not_assigned st
        \<and> filter is_PUT (trace st2) = filter is_PUT (trace st)"
    if fetch: "respond w (trace st) (GET (API p)) = Response status body"
      and decoded: "loads_workloads w body = Some (pre @ v # post)"
      and v: "public_ip v = ip r" "interfaces v = [d]"
      and others: "\<forall>x\<in>set pre \<union> set post.
        public_ip x \<noteq> ip r \<and> (\<forall>i\<in>set (interfaces x). address i \<noteq> ip r)"
      and resolved: "resolve_row w p r (st\<lparr>trace := trace st @ [GET (API p)]\<rparr>) = Inr st2"
      and label: "build_label (hrefs st2) = Inr label"
      and put: "respond w (trace st2) (PUT (pce p @ ''/api/v2'' @ workload_href v) label)
                  = Response status' body'"
  proof -
    have step: "workload_row_step w p r st =
          Inr (st2\<lparr>check := 1,
                   trace := trace st2 @ [PUT (pce p @ ''/api/v2'' @ workload_href v) label],
                   assigned := assigned st2 @ [ip r]\<rparr>)"
      using workload_row_step_fetched [OF fetch decoded, of r] resolved
        match_row_single [OF v others label put]
      by simp
    have "rows_untouched (st\<lparr>trace := trace st @ [GET (API p)]\<rparr>) st2"
      using relatesD [OF resolve_row_untouched resolved] .
    then show ?thesis using step by (simp add: rows_untouched_def)
  qed
  have run: "length a = length (filter is_PUT (trace (snd (run_module_assign w q))))"
    if e: "fst (run_module_assign w q) = Exit_assigned a n"
  proof -
    from run_module_assign_exit_rows [OF e] obtain labels rows st2 where
      rows: "workload_rows w q rows
               \<lparr>trace = [GET (labels_API q)], labels_details = labels, hrefs = Map.empty,
                check = 0, assigned = [], not_assigned = []\<rparr> = Inr st2"
      and out: "run_module_assign w q = (Exit_assigned (assigned st2) (not_assigned st2), st2)"
      by blast
    from relatesD [OF assigned_counts_rows rows]
    have "length (assigned st2) = length (filter is_PUT (trace st2))"
      by (simp add: assigned_counts_def)
    then show ?thesis using e out by simp
  qed
  show ?thesis using row run by blast
qed

theorem single_match_assigns_once_witness:
  "(\<exists>s. workload_row_step world_matched p_assign example_row state_after_listing = Inr s
       \<and> assigned s = [''192.168.1.113''] \<and> not_assigned s = []
       \<and> filter is_PUT (trace s)
           = [PUT ''https://pce/api/v2/orgs/1/workloads/a''
                [Href ''/orgs/1/labels/1'', Href ''/orgs/1/labels/2'',
                 Href ''/orgs/1/labels/3'', Href ''/orgs/1/labels/4'']])
   \<and> fst (run_module_assign world_matched p_assign) = Exit_assigned [''192.168.1.113''] []
   \<and> length [''192.168.1.113'']
       = length (filter is_PUT (trace (snd (run_module_assign world_matched p_assign))))"
proof -
  let ?st1 = "state_after_listing\<lparr>trace := trace state_after_listing @ [GET (API p_assign)]\<rparr>"
  let ?label = "[Href ''/orgs/1/labels/1'', Href ''/orgs/1/labels/2'',
                 Href ''/orgs/1/labels/3'', Href ''/orgs/1/labels/4'']"
  have fetch: "respond world_matched (trace state_after_listing) (GET (API p_assign))
                 = Response 200 ''[workloads]''"
    by (simp add: world_matched_def assign_world_def API_def p_assign_def)
  have decoded: "loads_workloads world_matched ''[workloads]'' = Some ([] @ example_workload # [])"
    by (simp add: world_matched_def assign_world_def)
  have v: "public_ip example_workload = ip example_row"
      "interfaces example_workload = [\<lparr>address = ''10.0.0.5''\<rparr>]"
    by (simp_all add: example_workload_def example_row_def)
  have others: "\<forall>x\<in>set [] \<union> set [].
        public_ip x \<noteq> ip example_row \<and> (\<forall>i\<in>set (interfaces x). address i \<noteq> ip example_row)"
    by simp
  have resolved: "resolve_row world_matched p_assign example_row ?st1 = Inr state_resolved"
    by (simp add: assign_unfold state_unfold world_matched_def)
  have label: "build_label (hrefs state_resolved) = Inr ?label"
    by (simp add: state_unfold build_label_def append_href_def)
  have put: "respond world_matched (trace state_resolved)
        (PUT (pce p_assign @ ''/api/v2'' @ workload_href example_workload) ?label)
      = Response 200 ''{}''"
    by (simp add: world_matched_def assign_world_def)
  have run: "fst (run_module_assign world_matched p_assign) = Exit_assigned [''192.168.1.113''] []"
    by (simp add: assign_unfold world_matched_def)
  note t = single_match_assigns_once [where w = world_matched]
  from t [where p = p_assign and st = state_after_listing and r = example_row,
      THEN conjunct1, rule_format,
      OF conjI [OF fetch conjI [OF decoded conjI [OF v(1) conjI [OF v(2) conjI [OF others
          conjI [OF resolved conjI [OF label put]]]]]]]]
  have "workload_row_step world_matched p_assign example_row state_after_listing =
          Inr (state_resolved\<lparr>check := 1,
                   trace := trace state_resolved @
                     [PUT (pce p_assign @ ''/api/v2'' @ workload_href example_workload) ?label],
                   assigned := assigned state_resolved @ [ip example_row]\<rparr>)"
    by simp
  then have first: "\<exists>s. workload_row_step world_matched p_assign example_row state_after_listing
         = Inr s
       \<and> assigned s = [''192.168.1.113''] \<and> not_assigned s = []
       \<and> filter is_PUT (trace s) = [PUT ''https://pce/api/v2/orgs/1/workloads/a'' ?label]"
    by (simp add: state_unfold example_row_def example_workload_def p_assign_def)
  from t [where q = p_assign and a = "[''192.168.1.113'']" and n = "[]",
      THEN conjunct2, rule_format, OF run]
  have count: "length [''192.168.1.113'']
       = length (filter is_PUT (trace (snd (run_module_assign world_matched p_assign))))" .
  show ?thesis using first run count by blast
qed

end
